theory Spec2Isabelle
  imports Main
begin

section \<open>Data model of go/sig/base/map.go\<close>

text \<open>
  The registry of remote ASes of the SIG: the type \<open>ASMap\<close>, a \<open>sync.Map\<close> from
  \<open>addr.IAInt\<close> keys to \<open>*ASEntry\<close> values, with its methods \<open>AddIA\<close>, \<open>DelIA\<close>,
  \<open>ASEntry\<close> and \<open>ReloadConfig\<close>. The methods are state transformers: each takes the
  state and returns its result together with the new state. Identifiers and
  configurations reach the methods through pointers in Go; the model passes the
  values pointed to. The model is sequential, as map.go asks of its callers
  ("not concurrency safe against multiple writers").
\<close>

text \<open>
  Modelled from the spec: the declaration of \<open>addr.ISD_AS\<close> is not part of the
  sources at hand. The spec describes an identifier as a pair of unsigned integers;
  map.go reads the two fields \<open>I\<close> and \<open>A\<close> and compares each with 0.
\<close>

record ISD_AS =
  I :: nat
  A :: nat

text \<open>
  A value of Go type \<open>*ASEntry\<close>: the nil pointer or the address of an entry. The
  entries themselves (sessions, tunnel devices) belong to the collaborator and stay
  opaque.
\<close>

datatype ASEntryPtr = NilPtr | Ptr nat

text \<open>
  \<open>common.CError\<close> as map.go uses it: a description and a context made of alternating
  names and values (\<open>cerr.Desc\<close>, \<open>cerr.Ctx\<close>). The only context values map.go itself
  produces are the string \<open>"ia"\<close> and the identifier.
\<close>

datatype ctxval = CtxString string | CtxIA ISD_AS

record CError =
  Desc :: string
  Ctx :: "ctxval list"

definition NewCError :: "string \<Rightarrow> ctxval list \<Rightarrow> CError" where
  "NewCError desc ctx = \<lparr>Desc = desc, Ctx = ctx\<rparr>"

text \<open>
  \<open>config.Cfg\<close>: only the field \<open>ASes\<close>, a Go map from identifiers to per-domain
  configurations, is used. It is kept as an association list; the order of the list
  is the order in which \<open>range cfg.ASes\<close> happens to enumerate the map, which Go
  leaves unspecified, so every statement below holds for every order.
\<close>

record 'c Cfg =
  ASes :: "(ISD_AS \<times> 'c) list"

text \<open>
  Everything map.go does besides computing values, in program order: log lines,
  updates of the underlying \<open>sync.Map\<close>, and calls into the collaborator.
\<close>

datatype ('k, 'c) event =
    LogInfo string "ctxval list"
  | LogError string "ctxval list"
  | MapStore 'k ASEntryPtr
  | MapDelete 'k
  | CallNewASEntry ISD_AS
  | CallReloadConfig ASEntryPtr 'c
  | CallCleanup ASEntryPtr

text \<open>
  The state: the contents of the \<open>sync.Map\<close> behind \<open>ASMap\<close> (keys of type
  \<open>addr.IAInt\<close>, here \<open>'k\<close>), the state \<open>'w\<close> of the collaborator's world, and the
  events so far.
\<close>

record ('k, 'c, 'w) state =
  am :: "'k \<rightharpoonup> ASEntryPtr"
  world :: 'w
  trace :: "('k, 'c) event list"

text \<open>
  What map.go calls but does not define. \<open>IAInt\<close> and \<open>IA\<close> are the conversions
  between identifiers and map keys of package addr; \<open>newASEntry\<close>,
  \<open>ASEntry_ReloadConfig\<close> and \<open>ASEntry_Cleanup\<close> are the entry factory and the two entry
  methods, which act on the collaborator's world. Errors are \<open>common.CError\<close> values:
  lines 81 and 102 of map.go cast every error to that type. \<open>rangeKeys\<close> is the order
  in which \<open>sync.Map.Range\<close> enumerates the keys of a map with the given contents.
\<close>

record ('k, 'c, 'w) env =
  IAInt :: "ISD_AS \<Rightarrow> 'k"
  IA :: "'k \<Rightarrow> ISD_AS"
  newASEntry :: "ISD_AS \<Rightarrow> 'w \<Rightarrow> (ASEntryPtr \<times> CError option) \<times> 'w"
  ASEntry_ReloadConfig :: "ASEntryPtr \<Rightarrow> 'c \<Rightarrow> 'w \<Rightarrow> bool \<times> 'w"
  ASEntry_Cleanup :: "ASEntryPtr \<Rightarrow> 'w \<Rightarrow> CError option \<times> 'w"
  rangeKeys :: "('k \<rightharpoonup> ASEntryPtr) \<Rightarrow> 'k list"

section \<open>Effects\<close>

definition emit :: "('k, 'c) event \<Rightarrow> ('k, 'c, 'w) state \<Rightarrow> ('k, 'c, 'w) state" where
  "emit e s = s\<lparr>trace := trace s @ [e]\<rparr>"

definition iaCtx :: "ISD_AS \<Rightarrow> ctxval list" where
  "iaCtx ia = [CtxString ''ia'', CtxIA ia]"

definition log_Info :: "string \<Rightarrow> ctxval list \<Rightarrow> ('k, 'c, 'w) state \<Rightarrow> ('k, 'c, 'w) state" where
  "log_Info msg ctx s = emit (LogInfo msg ctx) s"

definition log_Error :: "string \<Rightarrow> ctxval list \<Rightarrow> ('k, 'c, 'w) state \<Rightarrow> ('k, 'c, 'w) state" where
  "log_Error msg ctx s = emit (LogError msg ctx) s"

definition call_newASEntry ::
  "('k, 'c, 'w) env \<Rightarrow> ISD_AS \<Rightarrow> ('k, 'c, 'w) state
     \<Rightarrow> (ASEntryPtr \<times> CError option) \<times> ('k, 'c, 'w) state" where
  "call_newASEntry env ia s =
     (case newASEntry env ia (world s) of
        (r, w) \<Rightarrow> (r, emit (CallNewASEntry ia) (s\<lparr>world := w\<rparr>)))"

definition call_ReloadConfig ::
  "('k, 'c, 'w) env \<Rightarrow> ASEntryPtr \<Rightarrow> 'c \<Rightarrow> ('k, 'c, 'w) state
     \<Rightarrow> bool \<times> ('k, 'c, 'w) state" where
  "call_ReloadConfig env ae cfgEntry s =
     (case ASEntry_ReloadConfig env ae cfgEntry (world s) of
        (r, w) \<Rightarrow> (r, emit (CallReloadConfig ae cfgEntry) (s\<lparr>world := w\<rparr>)))"

definition call_Cleanup ::
  "('k, 'c, 'w) env \<Rightarrow> ASEntryPtr \<Rightarrow> ('k, 'c, 'w) state
     \<Rightarrow> CError option \<times> ('k, 'c, 'w) state" where
  "call_Cleanup env ae s =
     (case ASEntry_Cleanup env ae (world s) of
        (r, w) \<Rightarrow> (r, emit (CallCleanup ae) (s\<lparr>world := w\<rparr>)))"

section \<open>The typed wrappers around sync.Map\<close>

text \<open>\<open>Delete\<close>, \<open>Load\<close>, \<open>LoadOrStore\<close>, \<open>Store\<close> and \<open>Range\<close>, lines 37 to 65.\<close>

definition Delete :: "'k \<Rightarrow> ('k, 'c, 'w) state \<Rightarrow> ('k, 'c, 'w) state" where
  "Delete key s = emit (MapDelete key) (s\<lparr>am := (am s)(key := None)\<rparr>)"

text \<open>
  \<open>Store\<close> only ever puts typed \<open>*ASEntry\<close> values into the map, so the interface value
  that \<open>sync.Map.Load\<close> hands back is nil exactly when the key is absent.
\<close>

definition Load :: "'k \<Rightarrow> ('k, 'c, 'w) state \<Rightarrow> (ASEntryPtr \<times> bool) \<times> ('k, 'c, 'w) state" where
  "Load key s =
     (case am s key of
        None \<Rightarrow> ((NilPtr, False), s)
      | Some v \<Rightarrow> ((v, True), s))"

definition Store :: "'k \<Rightarrow> ASEntryPtr \<Rightarrow> ('k, 'c, 'w) state \<Rightarrow> ('k, 'c, 'w) state" where
  "Store key v s = emit (MapStore key v) (s\<lparr>am := (am s)(key \<mapsto> v)\<rparr>)"

definition LoadOrStore ::
  "'k \<Rightarrow> ASEntryPtr \<Rightarrow> ('k, 'c, 'w) state \<Rightarrow> (ASEntryPtr \<times> bool) \<times> ('k, 'c, 'w) state" where
  "LoadOrStore key v s =
     (case am s key of
        None \<Rightarrow> ((v, False), Store key v s)
      | Some actual \<Rightarrow> ((actual, True), s))"

text \<open>
  \<open>sync.Map.Range\<close> walks the keys it enumerated when it started, reads the current
  value of each key when it reaches it, skips a key that has been deleted in the
  meantime, and stops when the visitor returns false. The visitor \<open>f\<close> also gets
  and returns the variables \<open>'a\<close> its closure captures.
\<close>

fun Range_loop ::
  "('k \<Rightarrow> ASEntryPtr \<Rightarrow> 'a \<Rightarrow> ('k, 'c, 'w) state \<Rightarrow> bool \<times> 'a \<times> ('k, 'c, 'w) state)
     \<Rightarrow> 'k list \<Rightarrow> 'a \<Rightarrow> ('k, 'c, 'w) state \<Rightarrow> 'a \<times> ('k, 'c, 'w) state" where
  "Range_loop f [] a s = (a, s)"
| "Range_loop f (key # keys) a s =
     (case am s key of
        None \<Rightarrow> Range_loop f keys a s
      | Some v \<Rightarrow>
          (case f key v a s of
             (cont, a', s') \<Rightarrow> if cont then Range_loop f keys a' s' else (a', s')))"

definition Range ::
  "('k, 'c, 'w) env
     \<Rightarrow> ('k \<Rightarrow> ASEntryPtr \<Rightarrow> 'a \<Rightarrow> ('k, 'c, 'w) state \<Rightarrow> bool \<times> 'a \<times> ('k, 'c, 'w) state)
     \<Rightarrow> 'a \<Rightarrow> ('k, 'c, 'w) state \<Rightarrow> 'a \<times> ('k, 'c, 'w) state" where
  "Range env f a s = Range_loop f (rangeKeys env (am s)) a s"

section \<open>AddIA, DelIA, ASEntry\<close>

text \<open>
  \<open>AddIA\<close> (lines 115 to 131): the wildcard guard, the lookup, the factory, the store.
  A Go result \<open>(entry, error)\<close> is the pair of a pointer and an optional error.
\<close>

definition AddIA ::
  "('k, 'c, 'w) env \<Rightarrow> ISD_AS \<Rightarrow> ('k, 'c, 'w) state
     \<Rightarrow> (ASEntryPtr \<times> CError option) \<times> ('k, 'c, 'w) state" where
  "AddIA env ia s =
     (if I ia = 0 \<or> A ia = 0
      then ((NilPtr, Some (NewCError ''AddIA: ISD and AS must not be 0'' (iaCtx ia))), s)
      else
        let key = IAInt env ia in
        case Load key s of
          ((ae, ok), s1) \<Rightarrow>
            if ok then ((ae, None), s1)
            else
              (case call_newASEntry env ia s1 of
                 ((ae', err), s2) \<Rightarrow>
                   (case err of
                      Some e \<Rightarrow> ((NilPtr, Some e), s2)
                    | None \<Rightarrow> ((ae', None), Store key ae' s2))))"

text \<open>\<open>DelIA\<close> (lines 134 to 142): the lookup, then \<open>Delete\<close>, then \<open>Cleanup\<close>.\<close>

definition DelIA ::
  "('k, 'c, 'w) env \<Rightarrow> ISD_AS \<Rightarrow> ('k, 'c, 'w) state
     \<Rightarrow> CError option \<times> ('k, 'c, 'w) state" where
  "DelIA env ia s =
     (let key = IAInt env ia in
      case Load key s of
        ((ae, ok), s1) \<Rightarrow>
          if ok then call_Cleanup env ae (Delete key s1)
          else (Some (NewCError ''DelIA: No entry found'' (iaCtx ia)), s1))"

text \<open>\<open>ASEntry\<close> (lines 145 to 150).\<close>

definition ASEntry ::
  "('k, 'c, 'w) env \<Rightarrow> ISD_AS \<Rightarrow> ('k, 'c, 'w) state \<Rightarrow> ASEntryPtr \<times> ('k, 'c, 'w) state" where
  "ASEntry env ia s =
     (case Load (IAInt env ia) s of
        ((as, ok), s1) \<Rightarrow> if ok then (as, s1) else (NilPtr, s1))"

section \<open>ReloadConfig\<close>

text \<open>
  \<open>addNewIAs\<close> (lines 74 to 90): the loop over \<open>cfg.ASes\<close> with its flag \<open>s\<close>, which
  starts as true.
\<close>

fun addNewIAs_loop ::
  "('k, 'c, 'w) env \<Rightarrow> (ISD_AS \<times> 'c) list \<Rightarrow> bool \<Rightarrow> ('k, 'c, 'w) state
     \<Rightarrow> bool \<times> ('k, 'c, 'w) state" where
  "addNewIAs_loop env [] s st = (s, st)"
| "addNewIAs_loop env ((ia, cfgEntry) # rest) s st =
     (case AddIA env ia (log_Info ''ReloadConfig: Adding AS...'' (iaCtx ia) st) of
        ((ae, err), st1) \<Rightarrow>
          (case err of
             Some cerr \<Rightarrow>
               addNewIAs_loop env rest False (log_Error (Desc cerr) (Ctx cerr) st1)
           | None \<Rightarrow>
               (case call_ReloadConfig env ae cfgEntry st1 of
                  (r, st2) \<Rightarrow>
                    addNewIAs_loop env rest (r \<and> s)
                      (log_Info ''ReloadConfig: Added AS'' (iaCtx ia) st2))))"

definition addNewIAs ::
  "('k, 'c, 'w) env \<Rightarrow> 'c Cfg \<Rightarrow> ('k, 'c, 'w) state \<Rightarrow> bool \<times> ('k, 'c, 'w) state" where
  "addNewIAs env cfg st = addNewIAs_loop env (ASes cfg) True st"

text \<open>
  \<open>delOldIAs\<close> (lines 92 to 112). \<open>delOldIAs_visit\<close> is the closure handed to \<open>Range\<close>;
  it captures the flag \<open>s\<close> and always asks \<open>Range\<close> to go on.
\<close>

definition delOldIAs_visit ::
  "('k, 'c, 'w) env \<Rightarrow> 'c Cfg \<Rightarrow> 'k \<Rightarrow> ASEntryPtr \<Rightarrow> bool \<Rightarrow> ('k, 'c, 'w) state
     \<Rightarrow> bool \<times> bool \<times> ('k, 'c, 'w) state" where
  "delOldIAs_visit env cfg iaInt as s st =
     (let ia = IA env iaInt in
      case map_of (ASes cfg) ia of
        Some c \<Rightarrow> (True, s, st)
      | None \<Rightarrow>
          (case DelIA env ia (log_Info ''ReloadConfig: Deleting AS...'' (iaCtx ia) st) of
             (err, st1) \<Rightarrow>
               (case err of
                  Some cerr \<Rightarrow> (True, False, log_Error (Desc cerr) (Ctx cerr) st1)
                | None \<Rightarrow> (True, s, log_Info ''ReloadConfig: Deleted AS'' (iaCtx ia) st1))))"

definition delOldIAs ::
  "('k, 'c, 'w) env \<Rightarrow> 'c Cfg \<Rightarrow> ('k, 'c, 'w) state \<Rightarrow> bool \<times> ('k, 'c, 'w) state" where
  "delOldIAs env cfg st = Range env (delOldIAs_visit env cfg) True st"

text \<open>
  \<open>ReloadConfig\<close> (lines 67 to 71): both method calls are made before the results
  are combined.
\<close>

definition ReloadConfig ::
  "('k, 'c, 'w) env \<Rightarrow> 'c Cfg \<Rightarrow> ('k, 'c, 'w) state \<Rightarrow> bool \<times> ('k, 'c, 'w) state" where
  "ReloadConfig env cfg st =
     (case addNewIAs env cfg st of
        (s, st1) \<Rightarrow>
          (case delOldIAs env cfg st1 of
             (d, st2) \<Rightarrow> (d \<and> s, st2)))"

section \<open>The two phases of ReloadConfig in the words of the spec\<close>

text \<open>
  The addition phase as the spec words it: for every pair of \<open>cfg\<close> call Add; when
  it fails, record the failure and go on; when it succeeds, apply the configuration
  to the entry returned and record that result as well. The function returns the
  list of the outcomes recorded, in order. The log lines are those of map.go.
\<close>

fun addition_phase ::
  "('k, 'c, 'w) env \<Rightarrow> (ISD_AS \<times> 'c) list \<Rightarrow> ('k, 'c, 'w) state
     \<Rightarrow> bool list \<times> ('k, 'c, 'w) state" where
  "addition_phase env [] st = ([], st)"
| "addition_phase env ((ident, entry_cfg) # rest) st =
     (case AddIA env ident (log_Info ''ReloadConfig: Adding AS...'' (iaCtx ident) st) of
        ((entry, Some err), st1) \<Rightarrow>
          (case addition_phase env rest (log_Error (Desc err) (Ctx err) st1) of
             (outcomes, st') \<Rightarrow> (False # outcomes, st'))
      | ((entry, None), st1) \<Rightarrow>
          (case call_ReloadConfig env entry entry_cfg st1 of
             (applied, st2) \<Rightarrow>
               (case addition_phase env rest
                       (log_Info ''ReloadConfig: Added AS'' (iaCtx ident) st2) of
                  (outcomes, st') \<Rightarrow> (True # applied # outcomes, st'))))"

text \<open>
  The deletion phase as the spec words it: the identifiers that are in the registry
  when the phase starts and are absent from \<open>cfg\<close> (\<open>stale_ids\<close>, in the order of the
  enumeration), and one Remove for each of them, whose outcome is recorded.
\<close>

definition stale_ids ::
  "('k, 'c, 'w) env \<Rightarrow> 'c Cfg \<Rightarrow> ('k, 'c, 'w) state \<Rightarrow> ISD_AS list" where
  "stale_ids env cfg st =
     map (IA env)
       (filter (\<lambda>k. am st k \<noteq> None \<and> map_of (ASes cfg) (IA env k) = None)
          (rangeKeys env (am st)))"

fun remove_each ::
  "('k, 'c, 'w) env \<Rightarrow> ISD_AS list \<Rightarrow> ('k, 'c, 'w) state
     \<Rightarrow> bool list \<times> ('k, 'c, 'w) state" where
  "remove_each env [] st = ([], st)"
| "remove_each env (ident # rest) st =
     (case DelIA env ident (log_Info ''ReloadConfig: Deleting AS...'' (iaCtx ident) st) of
        (Some err, st1) \<Rightarrow>
          (case remove_each env rest (log_Error (Desc err) (Ctx err) st1) of
             (outcomes, st') \<Rightarrow> (False # outcomes, st'))
      | (None, st1) \<Rightarrow>
          (case remove_each env rest
                  (log_Info ''ReloadConfig: Deleted AS'' (iaCtx ident) st1) of
             (outcomes, st') \<Rightarrow> (True # outcomes, st')))"

definition deletion_phase ::
  "('k, 'c, 'w) env \<Rightarrow> 'c Cfg \<Rightarrow> ('k, 'c, 'w) state
     \<Rightarrow> bool list \<times> ('k, 'c, 'w) state" where
  "deletion_phase env cfg st = remove_each env (stale_ids env cfg st) st"

text \<open>The events of a run from \<open>st\<close> to \<open>st'\<close>.\<close>

definition new_events :: "('k, 'c, 'w) state \<Rightarrow> ('k, 'c, 'w) state \<Rightarrow> ('k, 'c) event list" where
  "new_events st st' = drop (length (trace st)) (trace st')"

section \<open>One round of each loop\<close>

text \<open>
  The state after one round of the loop of \<open>addNewIAs\<close>, and after one visit of the
  sweep of \<open>delOldIAs\<close>: the loops themselves, run on a single pair or key.
\<close>

definition addNewIAs_round ::
  "('k, 'c, 'w) env \<Rightarrow> ISD_AS \<times> 'c \<Rightarrow> ('k, 'c, 'w) state \<Rightarrow> ('k, 'c, 'w) state" where
  "addNewIAs_round env p st = snd (addNewIAs_loop env [p] True st)"

definition delOldIAs_round ::
  "('k, 'c, 'w) env \<Rightarrow> 'c Cfg \<Rightarrow> 'k \<Rightarrow> ('k, 'c, 'w) state \<Rightarrow> ('k, 'c, 'w) state" where
  "delOldIAs_round env cfg k st = snd (Range_loop (delOldIAs_visit env cfg) [k] True st)"

section \<open>Error kinds and sample data\<close>

text \<open>
  map.go has one error type and tells its errors apart by description only. The
  spec names kinds of errors; \<open>errorKind\<close> maps the two descriptions that map.go
  itself issues onto the kinds the spec gives them. Every other error comes from the
  collaborator.
\<close>

datatype ErrorKind = InvalidIdentifier | NotFound | CollaboratorError

definition errorKind :: "CError \<Rightarrow> ErrorKind" where
  "errorKind e =
     (if Desc e = ''AddIA: ISD and AS must not be 0'' then InvalidIdentifier
      else if Desc e = ''DelIA: No entry found'' then NotFound
      else CollaboratorError)"

text \<open>
  A concrete collaborator to run the definitions on. Keys are the pairs of the two
  components; \<open>Range\<close> enumerates the keys present in a fixed order. The factory fails for every identifier of ISD 7 and otherwise hands out
  the next free address; applying a configuration succeeds; cleaning up the entry
  at address 9 fails.
\<close>

definition sample_env :: "(nat \<times> nat, nat, nat) env" where
  "sample_env =
     \<lparr>IAInt = (\<lambda>ia. (I ia, A ia)),
      IA = (\<lambda>k. \<lparr>I = fst k, A = snd k\<rparr>),
      newASEntry = (\<lambda>ia w.
        if I ia = 7
        then ((NilPtr, Some (NewCError ''newASEntry: no tunnel device'' (iaCtx ia))), w)
        else ((Ptr w, None), Suc w)),
      ASEntry_ReloadConfig = (\<lambda>ae c w. (True, w)),
      ASEntry_Cleanup = (\<lambda>ae w.
        if ae = Ptr 9 then (Some (NewCError ''Cleanup: link not removed'' []), w)
        else (None, w)),
      rangeKeys = (\<lambda>m. filter (\<lambda>k. m k \<noteq> None) [(1, 1), (1, 2), (1, 3), (7, 1), (0, 0)])\<rparr>"

definition sample_state :: "(nat \<times> nat, nat, nat) state" where
  "sample_state = \<lparr>am = [(1, 1) \<mapsto> Ptr 9, (1, 2) \<mapsto> Ptr 5], world = 10, trace = []\<rparr>"

definition empty_state :: "(nat \<times> nat, nat, nat) state" where
  "empty_state = \<lparr>am = Map.empty, world = 0, trace = []\<rparr>"

text \<open>
  Two configurations for the sample registry, which holds the domains 1-1 and 1-2:
  the first asks for 1-2, 1-3 and 7-1, the second for 1-2 and 1-3.
\<close>

definition sample_cfg :: "nat Cfg" where
  "sample_cfg = \<lparr>ASes = [(\<lparr>I = 1, A = 2\<rparr>, 0), (\<lparr>I = 1, A = 3\<rparr>, 0), (\<lparr>I = 7, A = 1\<rparr>, 0)]\<rparr>"

definition sample_cfg2 :: "nat Cfg" where
  "sample_cfg2 = \<lparr>ASes = [(\<lparr>I = 1, A = 2\<rparr>, 0), (\<lparr>I = 1, A = 3\<rparr>, 0)]\<rparr>"

section \<open>The four paths of AddIA and the two of DelIA\<close>

lemma AddIA_wildcard:
  "I ia = 0 \<or> A ia = 0 \<Longrightarrow>
     AddIA env ia s =
       ((NilPtr, Some (NewCError ''AddIA: ISD and AS must not be 0'' (iaCtx ia))), s)"
  by (simp add: AddIA_def)

lemma AddIA_found:
  "I ia \<noteq> 0 \<Longrightarrow> A ia \<noteq> 0 \<Longrightarrow> am s (IAInt env ia) = Some ae \<Longrightarrow>
     AddIA env ia s = ((ae, None), s)"
  by (simp add: AddIA_def Load_def Let_def)

lemma AddIA_factory_error:
  "I ia \<noteq> 0 \<Longrightarrow> A ia \<noteq> 0 \<Longrightarrow> am s (IAInt env ia) = None \<Longrightarrow>
   newASEntry env ia (world s) = ((p, Some e), w) \<Longrightarrow>
     AddIA env ia s = ((NilPtr, Some e), emit (CallNewASEntry ia) (s\<lparr>world := w\<rparr>))"
  by (simp add: AddIA_def Load_def Let_def call_newASEntry_def)

lemma AddIA_created:
  "I ia \<noteq> 0 \<Longrightarrow> A ia \<noteq> 0 \<Longrightarrow> am s (IAInt env ia) = None \<Longrightarrow>
   newASEntry env ia (world s) = ((p, None), w) \<Longrightarrow>
     AddIA env ia s =
       ((p, None), Store (IAInt env ia) p (emit (CallNewASEntry ia) (s\<lparr>world := w\<rparr>)))"
  by (simp add: AddIA_def Load_def Let_def call_newASEntry_def)

lemma DelIA_found:
  "am s (IAInt env ia) = Some ae \<Longrightarrow>
     DelIA env ia s = call_Cleanup env ae (Delete (IAInt env ia) s)"
  by (simp add: DelIA_def Load_def Let_def)

lemma DelIA_missing:
  "am s (IAInt env ia) = None \<Longrightarrow>
     DelIA env ia s = (Some (NewCError ''DelIA: No entry found'' (iaCtx ia)), s)"
  by (simp add: DelIA_def Load_def Let_def)

lemma am_emit [simp]: "am (emit e s) = am s"
  by (simp add: emit_def)

lemma world_emit [simp]: "world (emit e s) = world s"
  by (simp add: emit_def)

lemma trace_emit [simp]: "trace (emit e s) = trace s @ [e]"
  by (simp add: emit_def)

lemma am_Store [simp]: "am (Store key v s) = (am s)(key \<mapsto> v)"
  by (simp add: Store_def)

lemma am_Delete [simp]: "am (Delete key s) = (am s)(key := None)"
  by (simp add: Delete_def)

lemma AddIA_success_present:
  assumes "AddIA env ia s = ((ae, None), s1)"
  shows "am s1 (IAInt env ia) = Some ae"
proof (cases "am s (IAInt env ia)")
  case None
  obtain p err w where f: "newASEntry env ia (world s) = ((p, err), w)"
    by (metis surj_pair)
  from assms None f show ?thesis
    by (cases err) (auto simp: AddIA_def Load_def Let_def call_newASEntry_def split: if_splits)
next
  case (Some v)
  with assms show ?thesis
    by (auto simp: AddIA_def Load_def Let_def split: if_splits)
qed

lemma AddIA_success_concrete:
  "AddIA env ia s = ((ae, None), s1) \<Longrightarrow> I ia \<noteq> 0 \<and> A ia \<noteq> 0"
  by (auto simp: AddIA_def split: if_splits)

section \<open>Claims about AddIA, DelIA and ASEntry\<close>

text \<open>
  C3. For a concrete identifier (both components non-zero) that already has an entry,
  \<open>AddIA\<close> returns that entry and no error and leaves the whole state as it was: the
  map, the collaborator's world and the trace, so the factory has not been called.
  Hence once \<open>AddIA\<close> has returned an entry for an identifier, the next \<open>AddIA\<close> for it
  returns the same entry and changes nothing.
\<close>

theorem AddIA_idempotent:
  assumes "I ia \<noteq> 0" and "A ia \<noteq> 0"
  shows "(am s (IAInt env ia) = Some ae \<longrightarrow> AddIA env ia s = ((ae, None), s))
       \<and> (AddIA env ia s = ((ae', None), s1) \<longrightarrow> AddIA env ia s1 = ((ae', None), s1))"
  using assms by (auto simp: AddIA_found dest: AddIA_success_present)

theorem AddIA_idempotent_witness:
  "I \<lparr>I = 1, A = 2\<rparr> \<noteq> 0 \<and> A \<lparr>I = 1, A = 2\<rparr> \<noteq> 0
   \<and> am sample_state (IAInt sample_env \<lparr>I = 1, A = 2\<rparr>) = Some (Ptr 5)
   \<and> AddIA sample_env \<lparr>I = 1, A = 2\<rparr> sample_state = ((Ptr 5, None), sample_state)
   \<and> AddIA sample_env \<lparr>I = 1, A = 2\<rparr> (snd (AddIA sample_env \<lparr>I = 1, A = 2\<rparr> sample_state))
       = ((Ptr 5, None), sample_state)"
  using AddIA_idempotent [where ia = "\<lparr>I = 1, A = 2\<rparr>" and env = sample_env
      and s = sample_state and ae = "Ptr 5" and ae' = "Ptr 5" and ?s1.0 = sample_state]
  by (simp add: sample_env_def sample_state_def)

text \<open>
  C4. For a wildcard identifier (a component is 0) \<open>AddIA\<close> returns the nil entry and
  the error "ISD and AS must not be 0", whose kind is InvalidIdentifier and whose
  context holds the identifier; the state is unchanged.
\<close>

theorem AddIA_wildcard_rejected:
  assumes "I ia = 0 \<or> A ia = 0"
  shows "\<exists>e. AddIA env ia s = ((NilPtr, Some e), s)
           \<and> e = NewCError ''AddIA: ISD and AS must not be 0'' [CtxString ''ia'', CtxIA ia]
           \<and> errorKind e = InvalidIdentifier \<and> CtxIA ia \<in> set (Ctx e)"
  using assms by (simp add: AddIA_wildcard iaCtx_def errorKind_def NewCError_def)

theorem AddIA_wildcard_rejected_witness:
  "(I \<lparr>I = 0, A = 3\<rparr> = 0 \<or> A \<lparr>I = 0, A = 3\<rparr> = 0)
   \<and> fst (fst (AddIA sample_env \<lparr>I = 0, A = 3\<rparr> sample_state)) = NilPtr
   \<and> map_option errorKind (snd (fst (AddIA sample_env \<lparr>I = 0, A = 3\<rparr> sample_state)))
       = Some InvalidIdentifier
   \<and> snd (AddIA sample_env \<lparr>I = 0, A = 3\<rparr> sample_state) = sample_state"
  using AddIA_wildcard_rejected [where ia = "\<lparr>I = 0, A = 3\<rparr>" and env = sample_env
      and s = sample_state]
  by auto

text \<open>
  C5. For a concrete identifier without an entry, when the factory returns an error,
  \<open>AddIA\<close> returns the nil entry and that error; the map is unchanged, and nothing
  has been stored in it: the only event is the call of the factory.
\<close>

theorem AddIA_factory_failure:
  assumes "I ia \<noteq> 0" and "A ia \<noteq> 0"
    and "am s (IAInt env ia) = None"
    and "newASEntry env ia (world s) = ((p, Some e), w)"
  shows "fst (AddIA env ia s) = (NilPtr, Some e)
       \<and> am (snd (AddIA env ia s)) = am s
       \<and> trace (snd (AddIA env ia s)) = trace s @ [CallNewASEntry ia]
       \<and> world (snd (AddIA env ia s)) = w"
  using assms by (simp add: AddIA_factory_error)

theorem AddIA_factory_failure_witness:
  "I \<lparr>I = 7, A = 1\<rparr> \<noteq> 0 \<and> A \<lparr>I = 7, A = 1\<rparr> \<noteq> 0
   \<and> am sample_state (IAInt sample_env \<lparr>I = 7, A = 1\<rparr>) = None
   \<and> fst (AddIA sample_env \<lparr>I = 7, A = 1\<rparr> sample_state)
       = (NilPtr, Some (NewCError ''newASEntry: no tunnel device'' (iaCtx \<lparr>I = 7, A = 1\<rparr>)))
   \<and> am (snd (AddIA sample_env \<lparr>I = 7, A = 1\<rparr> sample_state)) = am sample_state"
  using AddIA_factory_failure [where ia = "\<lparr>I = 7, A = 1\<rparr>" and env = sample_env
      and s = sample_state and p = NilPtr and w = 10
      and e = "NewCError ''newASEntry: no tunnel device'' (iaCtx \<lparr>I = 7, A = 1\<rparr>)"]
  by (simp add: sample_env_def sample_state_def)

text \<open>
  C6. For an identifier with an entry, \<open>DelIA\<close> deletes the key and then calls
  \<open>Cleanup\<close> on the entry it had loaded: the trace grows by the deletion followed by
  one call of \<open>Cleanup\<close>, and by nothing else, so the entry is not stored again. The
  key is absent afterwards whatever \<open>Cleanup\<close> returns, every other key keeps its
  entry, and the caller gets what \<open>Cleanup\<close> returned.
\<close>

theorem DelIA_present:
  assumes "am s (IAInt env ia) = Some ae"
    and "ASEntry_Cleanup env ae (world s) = (r, w)"
  shows "fst (DelIA env ia s) = r
       \<and> trace (snd (DelIA env ia s)) = trace s @ [MapDelete (IAInt env ia), CallCleanup ae]
       \<and> am (snd (DelIA env ia s)) = (am s)(IAInt env ia := None)
       \<and> am (snd (DelIA env ia s)) (IAInt env ia) = None
       \<and> world (snd (DelIA env ia s)) = w"
  using assms by (simp add: DelIA_found call_Cleanup_def Delete_def emit_def)

theorem DelIA_present_witness:
  "am sample_state (IAInt sample_env \<lparr>I = 1, A = 1\<rparr>) = Some (Ptr 9)
   \<and> fst (DelIA sample_env \<lparr>I = 1, A = 1\<rparr> sample_state)
       = Some (NewCError ''Cleanup: link not removed'' [])
   \<and> trace (snd (DelIA sample_env \<lparr>I = 1, A = 1\<rparr> sample_state))
       = [MapDelete (1, 1), CallCleanup (Ptr 9)]
   \<and> am (snd (DelIA sample_env \<lparr>I = 1, A = 1\<rparr> sample_state)) (1, 1) = None"
  using DelIA_present [where ia = "\<lparr>I = 1, A = 1\<rparr>" and env = sample_env
      and s = sample_state and ae = "Ptr 9" and w = 10
      and r = "Some (NewCError ''Cleanup: link not removed'' [])"]
  by (simp add: sample_env_def sample_state_def)

text \<open>
  C7. For an identifier without an entry, \<open>DelIA\<close> returns the error "No entry found",
  whose kind is NotFound and whose context holds the identifier, and leaves the whole
  state unchanged: no entry is touched and \<open>Cleanup\<close> is not called.
\<close>

theorem DelIA_absent:
  assumes "am s (IAInt env ia) = None"
  shows "\<exists>e. DelIA env ia s = (Some e, s)
           \<and> e = NewCError ''DelIA: No entry found'' [CtxString ''ia'', CtxIA ia]
           \<and> errorKind e = NotFound \<and> CtxIA ia \<in> set (Ctx e)"
  using assms by (simp add: DelIA_missing iaCtx_def errorKind_def NewCError_def)

theorem DelIA_absent_witness:
  "am sample_state (IAInt sample_env \<lparr>I = 1, A = 3\<rparr>) = None
   \<and> map_option errorKind (fst (DelIA sample_env \<lparr>I = 1, A = 3\<rparr> sample_state)) = Some NotFound
   \<and> snd (DelIA sample_env \<lparr>I = 1, A = 3\<rparr> sample_state) = sample_state"
  using DelIA_absent [where ia = "\<lparr>I = 1, A = 3\<rparr>" and env = sample_env and s = sample_state]
  by (auto simp: sample_env_def sample_state_def)

text \<open>
  C10. The lookup \<open>ASEntry\<close> checks nothing about the identifier: for every
  identifier, wildcard or not, it returns the entry stored under the identifier's key,
  or nil when there is none, and the state after the call is the state before it. The
  same holds for \<open>Load\<close>, on which it is built.
\<close>

theorem ASEntry_lookup:
  "ASEntry env ia s = (case am s (IAInt env ia) of None \<Rightarrow> NilPtr | Some v \<Rightarrow> v, s)
   \<and> Load key s = (case am s key of None \<Rightarrow> (NilPtr, False) | Some v \<Rightarrow> (v, True), s)"
  by (simp add: ASEntry_def Load_def split: option.splits)

section \<open>The loops against the phases of the spec\<close>

lemma am_log_Info [simp]: "am (log_Info msg ctx s) = am s"
  by (simp add: log_Info_def)

lemma am_log_Error [simp]: "am (log_Error msg ctx s) = am s"
  by (simp add: log_Error_def)

lemma addNewIAs_loop_outcomes:
  "addNewIAs_loop env cs acc st =
     (case addition_phase env cs st of (outcomes, st') \<Rightarrow> (acc \<and> list_all (\<lambda>b. b) outcomes, st'))"
proof (induction cs arbitrary: acc st)
  case Nil
  show ?case by simp
next
  case (Cons c cs)
  obtain ia cfgEntry where c: "c = (ia, cfgEntry)"
    by (cases c)
  show ?case
    unfolding c
    by (auto simp: Cons.IH split: prod.splits option.splits)
qed

lemma am_DelIA_found:
  "am s (IAInt env ia) = Some ae \<Longrightarrow> am (snd (DelIA env ia s)) = (am s)(IAInt env ia := None)"
  by (simp add: DelIA_found call_Cleanup_def split: prod.splits)

lemma delOldIAs_visit_keep:
  "map_of (ASes cfg) (IA env k) = Some c \<Longrightarrow> delOldIAs_visit env cfg k v acc st = (True, acc, st)"
  by (simp add: delOldIAs_visit_def Let_def)

lemma delOldIAs_visit_failed:
  "map_of (ASes cfg) (IA env k) = None \<Longrightarrow>
   DelIA env (IA env k) (log_Info ''ReloadConfig: Deleting AS...'' (iaCtx (IA env k)) st)
     = (Some cerr, st1) \<Longrightarrow>
   delOldIAs_visit env cfg k v acc st = (True, False, log_Error (Desc cerr) (Ctx cerr) st1)"
  by (simp add: delOldIAs_visit_def Let_def)

lemma delOldIAs_visit_deleted:
  "map_of (ASes cfg) (IA env k) = None \<Longrightarrow>
   DelIA env (IA env k) (log_Info ''ReloadConfig: Deleting AS...'' (iaCtx (IA env k)) st)
     = (None, st1) \<Longrightarrow>
   delOldIAs_visit env cfg k v acc st
     = (True, acc, log_Info ''ReloadConfig: Deleted AS'' (iaCtx (IA env k)) st1)"
  by (simp add: delOldIAs_visit_def Let_def)

lemma Range_loop_outcomes:
  assumes "distinct ks"
    and "\<forall>k \<in> set ks. am st k \<noteq> None \<longrightarrow> IAInt env (IA env k) = k"
  shows "Range_loop (delOldIAs_visit env cfg) ks acc st =
     (case remove_each env
             (map (IA env)
                (filter (\<lambda>k. am st k \<noteq> None \<and> map_of (ASes cfg) (IA env k) = None) ks)) st of
        (outcomes, st') \<Rightarrow> (acc \<and> list_all (\<lambda>b. b) outcomes, st'))"
  using assms
proof (induction ks arbitrary: acc st)
  case Nil
  show ?case by simp
next
  case (Cons k ks)
  have dist: "distinct ks" and fresh: "k \<notin> set ks"
    using Cons.prems(1) by simp_all
  show ?case
  proof (cases "am st k")
    case None
    with Cons.prems dist show ?thesis
      by (simp add: Cons.IH)
  next
    case (Some v)
    show ?thesis
    proof (cases "map_of (ASes cfg) (IA env k)")
      case (Some c)
      with \<open>am st k = Some v\<close> Cons.prems dist show ?thesis
        by (simp add: Cons.IH delOldIAs_visit_keep)
    next
      case None
      have rt: "IAInt env (IA env k) = k"
        using Cons.prems(2) \<open>am st k = Some v\<close> by simp
      let ?st0 = "log_Info ''ReloadConfig: Deleting AS...'' (iaCtx (IA env k)) st"
      obtain err st1 where d: "DelIA env (IA env k) ?st0 = (err, st1)"
        by (cases "DelIA env (IA env k) ?st0")
      have "am ?st0 (IAInt env (IA env k)) = Some v"
        using rt \<open>am st k = Some v\<close> by simp
      from am_DelIA_found [OF this] d rt have am1: "am st1 = (am st)(k := None)"
        by simp
      have same: "\<And>st2. am st2 = am st1 \<Longrightarrow>
          filter (\<lambda>k. am st2 k \<noteq> None \<and> map_of (ASes cfg) (IA env k) = None) ks
        = filter (\<lambda>k. am st k \<noteq> None \<and> map_of (ASes cfg) (IA env k) = None) ks"
        using fresh am1 by (intro filter_cong) auto
      have pre: "\<And>st2. am st2 = am st1 \<Longrightarrow>
          \<forall>k \<in> set ks. am st2 k \<noteq> None \<longrightarrow> IAInt env (IA env k) = k"
        using Cons.prems(2) am1 by (auto split: if_splits)
      show ?thesis
      proof (cases err)
        case None
        let ?st2 = "log_Info ''ReloadConfig: Deleted AS'' (iaCtx (IA env k)) st1"
        have a: "am ?st2 = am st1" by simp
        have "delOldIAs_visit env cfg k v acc st = (True, acc, ?st2)"
          using \<open>map_of (ASes cfg) (IA env k) = None\<close> d None
          by (simp add: delOldIAs_visit_deleted)
        then show ?thesis
          using \<open>am st k = Some v\<close> \<open>map_of (ASes cfg) (IA env k) = None\<close> d None
            Cons.IH [OF dist pre [OF a], of acc] same [OF a]
          by (simp split: prod.splits)
      next
        case (Some cerr)
        let ?st2 = "log_Error (Desc cerr) (Ctx cerr) st1"
        have a: "am ?st2 = am st1" by simp
        have "delOldIAs_visit env cfg k v acc st = (True, False, ?st2)"
          using \<open>map_of (ASes cfg) (IA env k) = None\<close> d Some
          by (simp add: delOldIAs_visit_failed)
        then show ?thesis
          using \<open>am st k = Some v\<close> \<open>map_of (ASes cfg) (IA env k) = None\<close> d Some
            Cons.IH [OF dist pre [OF a], of False] same [OF a]
          by (simp split: prod.splits)
      qed
    qed
  qed
qed

section \<open>Claims about the two phases\<close>

text \<open>
  C8. The addition loop of map.go is the addition phase of the spec: Add is called
  for every pair of \<open>cfg\<close> in turn, a failure is recorded as the outcome False and
  the remaining pairs are still processed, after a successful Add the configuration
  is applied to the entry returned, whatever the flag is by then, and the result
  of the loop is the conjunction of all outcomes recorded. The deletion sweep of
  map.go is the deletion phase of the spec: one Remove for each identifier of
  \<open>stale_ids\<close>, none of them skipped after a failure, and the result is the conjunction
  of their outcomes; \<open>stale_ids\<close> lists, each once, exactly the identifiers that are
  in the registry when the phase starts and are absent from \<open>cfg\<close>. For the deletion
  phase \<open>Range\<close> has to enumerate every key of the map once, and every key of the map
  has to be the key of its own identifier.
\<close>

theorem ReloadConfig_phases:
  assumes "distinct (rangeKeys env (am st))"
    and "dom (am st) \<subseteq> set (rangeKeys env (am st))"
    and "\<forall>k \<in> dom (am st). IAInt env (IA env k) = k"
  shows "addNewIAs env cfg st =
           (case addition_phase env (ASes cfg) st of
              (outcomes, st') \<Rightarrow> (list_all (\<lambda>b. b) outcomes, st'))
       \<and> delOldIAs env cfg st =
           (case deletion_phase env cfg st of
              (outcomes, st') \<Rightarrow> (list_all (\<lambda>b. b) outcomes, st'))
       \<and> set (stale_ids env cfg st)
           = {ia \<in> IA env ` dom (am st). ia \<notin> fst ` set (ASes cfg)}
       \<and> distinct (stale_ids env cfg st)"
proof -
  have add: "addNewIAs env cfg st =
      (case addition_phase env (ASes cfg) st of
         (outcomes, st') \<Rightarrow> (list_all (\<lambda>b. b) outcomes, st'))"
    by (simp add: addNewIAs_def addNewIAs_loop_outcomes)
  have rt: "\<forall>k \<in> set (rangeKeys env (am st)). am st k \<noteq> None \<longrightarrow> IAInt env (IA env k) = k"
    using assms(3) by (auto simp: dom_def)
  have del: "delOldIAs env cfg st =
      (case deletion_phase env cfg st of
         (outcomes, st') \<Rightarrow> (list_all (\<lambda>b. b) outcomes, st'))"
    using Range_loop_outcomes [OF assms(1) rt, of cfg True]
    by (simp add: delOldIAs_def Range_def deletion_phase_def stale_ids_def)
  have live: "{k \<in> set (rangeKeys env (am st)). am st k \<noteq> None} = dom (am st)"
    using assms(2) by (auto simp: dom_def)
  have "set (stale_ids env cfg st)
      = IA env ` {k \<in> dom (am st). map_of (ASes cfg) (IA env k) = None}"
    using live by (auto simp: stale_ids_def)
  then have ids: "set (stale_ids env cfg st)
      = {ia \<in> IA env ` dom (am st). ia \<notin> fst ` set (ASes cfg)}"
    by (auto simp: map_of_eq_None_iff)
  have "inj_on (IA env) (dom (am st))"
    using assms(3) by (metis inj_onI)
  then have "inj_on (IA env)
      (set (filter (\<lambda>k. am st k \<noteq> None \<and> map_of (ASes cfg) (IA env k) = None)
              (rangeKeys env (am st))))"
    by (rule inj_on_subset) (auto simp: dom_def)
  then have once: "distinct (stale_ids env cfg st)"
    using assms(1) by (simp add: stale_ids_def distinct_map)
  from add del ids once show ?thesis
    by blast
qed

theorem ReloadConfig_phases_witness:
  "distinct (rangeKeys sample_env (am sample_state))
   \<and> dom (am sample_state) \<subseteq> set (rangeKeys sample_env (am sample_state))
   \<and> dom (am sample_state) = {(1, 1), (1, 2)}
   \<and> IAInt sample_env (IA sample_env (1, 1)) = (1, 1)
   \<and> IAInt sample_env (IA sample_env (1, 2)) = (1, 2)
   \<and> addNewIAs sample_env \<lparr>ASes = [(\<lparr>I = 1, A = 2\<rparr>, 0), (\<lparr>I = 7, A = 1\<rparr>, 0)]\<rparr> sample_state =
       (case addition_phase sample_env [(\<lparr>I = 1, A = 2\<rparr>, 0), (\<lparr>I = 7, A = 1\<rparr>, 0)] sample_state of
          (outcomes, st') \<Rightarrow> (list_all (\<lambda>b. b) outcomes, st'))
   \<and> delOldIAs sample_env \<lparr>ASes = [(\<lparr>I = 1, A = 2\<rparr>, 0), (\<lparr>I = 7, A = 1\<rparr>, 0)]\<rparr> sample_state =
       (case deletion_phase sample_env \<lparr>ASes = [(\<lparr>I = 1, A = 2\<rparr>, 0), (\<lparr>I = 7, A = 1\<rparr>, 0)]\<rparr>
               sample_state of
          (outcomes, st') \<Rightarrow> (list_all (\<lambda>b. b) outcomes, st'))
   \<and> stale_ids sample_env \<lparr>ASes = [(\<lparr>I = 1, A = 2\<rparr>, 0), (\<lparr>I = 7, A = 1\<rparr>, 0)]\<rparr> sample_state
       = [\<lparr>I = 1, A = 1\<rparr>]"
proof -
  have h1: "distinct (rangeKeys sample_env (am sample_state))"
    by (simp add: sample_env_def sample_state_def)
  have h2: "dom (am sample_state) \<subseteq> set (rangeKeys sample_env (am sample_state))"
    by (simp add: sample_env_def sample_state_def)
  have h3: "\<forall>k \<in> dom (am sample_state). IAInt sample_env (IA sample_env k) = k"
    by (simp add: sample_env_def sample_state_def)
  have ids: "stale_ids sample_env \<lparr>ASes = [(\<lparr>I = 1, A = 2\<rparr>, 0), (\<lparr>I = 7, A = 1\<rparr>, 0)]\<rparr> sample_state
       = [\<lparr>I = 1, A = 1\<rparr>]"
    by (simp add: stale_ids_def sample_env_def sample_state_def)
  have d: "dom (am sample_state) = {(1, 1), (1, 2)}"
    by (auto simp: sample_state_def)
  have r: "IAInt sample_env (IA sample_env (1, 1)) = (1, 1)
      \<and> IAInt sample_env (IA sample_env (1, 2)) = (1, 2)"
    by (simp add: sample_env_def)
  show ?thesis
    using h1 h2 d r ids
      ReloadConfig_phases [OF h1 h2 h3,
        of "\<lparr>ASes = [(\<lparr>I = 1, A = 2\<rparr>, 0), (\<lparr>I = 7, A = 1\<rparr>, 0)]\<rparr>"]
    by simp
qed

text \<open>
  C9, in the form that holds of map.go. \<open>DelIA\<close> does not look at the components of the identifier. A
  wildcard is handled like any other identifier: when its key has no entry, the result
  is the error "No entry found" of kind NotFound, with the identifier in its context,
  and the state is unchanged; when its key has an entry, the key is deleted and
  \<open>Cleanup\<close> is called on the entry.
\<close>

theorem DelIA_wildcard_unchecked:
  assumes "I ia = 0 \<or> A ia = 0"
  shows "DelIA env ia s =
           (case am s (IAInt env ia) of
              None \<Rightarrow> (Some (NewCError ''DelIA: No entry found'' [CtxString ''ia'', CtxIA ia]), s)
            | Some ae \<Rightarrow> call_Cleanup env ae (Delete (IAInt env ia) s))
       \<and> (am s (IAInt env ia) = None \<longrightarrow>
            map_option errorKind (fst (DelIA env ia s)) = Some NotFound)"
  by (simp add: DelIA_found DelIA_missing iaCtx_def errorKind_def NewCError_def
      split: option.splits)

theorem DelIA_wildcard_unchecked_witness:
  "(I \<lparr>I = 0, A = 0\<rparr> = 0 \<or> A \<lparr>I = 0, A = 0\<rparr> = 0)
   \<and> am empty_state (IAInt sample_env \<lparr>I = 0, A = 0\<rparr>) = None
   \<and> DelIA sample_env \<lparr>I = 0, A = 0\<rparr> empty_state =
       (Some (NewCError ''DelIA: No entry found'' [CtxString ''ia'', CtxIA \<lparr>I = 0, A = 0\<rparr>]),
        empty_state)
   \<and> map_option errorKind (fst (DelIA sample_env \<lparr>I = 0, A = 0\<rparr> empty_state)) = Some NotFound"
proof -
  have w: "I \<lparr>I = 0, A = 0\<rparr> = 0 \<or> A \<lparr>I = 0, A = 0\<rparr> = 0"
    by simp
  have a: "am empty_state (IAInt sample_env \<lparr>I = 0, A = 0\<rparr>) = None"
    by (simp add: empty_state_def)
  from DelIA_wildcard_unchecked [OF w, of sample_env empty_state] a w show ?thesis
    by auto
qed

theorem DelIA_wildcard_counterexample:
  "(I \<lparr>I = 0, A = 0\<rparr> = 0 \<or> A \<lparr>I = 0, A = 0\<rparr> = 0)
   \<and> map_option errorKind (fst (DelIA sample_env \<lparr>I = 0, A = 0\<rparr> empty_state))
       \<noteq> Some InvalidIdentifier
   \<and> map_option errorKind (fst (DelIA sample_env \<lparr>I = 0, A = 0\<rparr> empty_state))
       = Some NotFound
   \<and> map_option Desc (fst (DelIA sample_env \<lparr>I = 0, A = 0\<rparr> empty_state))
       = map_option Desc (fst (DelIA sample_env \<lparr>I = 1, A = 3\<rparr> empty_state))"
  by (simp add: DelIA_def Load_def Let_def empty_state_def sample_env_def errorKind_def
      NewCError_def iaCtx_def)

section \<open>What a pass does to the map and to the trace\<close>

lemma new_events_eq: "trace st' = trace st @ evs \<Longrightarrow> new_events st st' = evs"
  by (simp add: new_events_def)

lemma new_events_append:
  assumes "trace b = trace a @ x" and "trace c = trace b @ y"
  shows "new_events a c = x @ y"
  using assms by (simp add: new_events_def)

lemma iaCtx_inject [simp]: "iaCtx ia = iaCtx ia' \<longleftrightarrow> ia = ia'"
  by (simp add: iaCtx_def)

lemma addNewIAs_loop_state:
  "snd (addNewIAs_loop env cs acc st) = snd (addition_phase env cs st)"
  by (simp add: addNewIAs_loop_outcomes split: prod.splits)

lemma addNewIAs_round_eq:
  "addNewIAs_round env (ia, c) st =
     (case AddIA env ia (log_Info ''ReloadConfig: Adding AS...'' (iaCtx ia) st) of
        ((ae, Some cerr), st1) \<Rightarrow> log_Error (Desc cerr) (Ctx cerr) st1
      | ((ae, None), st1) \<Rightarrow>
          log_Info ''ReloadConfig: Added AS'' (iaCtx ia) (snd (call_ReloadConfig env ae c st1)))"
  by (simp add: addNewIAs_round_def split: prod.splits option.splits)

lemma addition_phase_fold:
  "snd (addition_phase env cs st) = fold (addNewIAs_round env) cs st"
proof (induction cs arbitrary: st)
  case Nil
  show ?case by simp
next
  case (Cons p cs)
  obtain ia c where p: "p = (ia, c)"
    by (cases p)
  show ?case
    unfolding p
    by (simp add: Cons.IH [symmetric] addNewIAs_round_eq split: prod.splits option.splits)
qed

lemma addNewIAs_fold:
  "snd (addNewIAs env cfg st) = fold (addNewIAs_round env) (ASes cfg) st"
  by (simp add: addNewIAs_def addNewIAs_loop_state addition_phase_fold)

text \<open>One round of the addition loop, by the four paths of \<open>AddIA\<close>.\<close>

lemma addNewIAs_round_effect:
  fixes env :: "('k, 'c, 'w) env" and st :: "('k, 'c, 'w) state" and ia :: ISD_AS and c :: 'c
  defines "st' \<equiv> addNewIAs_round env (ia, c) st"
  shows "\<exists>evs. trace st' = trace st @ evs
    \<and> ((am st' = am st \<and> (I ia = 0 \<or> A ia = 0 \<or> am st (IAInt env ia) = None)
          \<and> (\<forall>ia'. LogInfo ''ReloadConfig: Added AS'' (iaCtx ia') \<notin> set evs))
       \<or> (am st' = am st \<and> am st (IAInt env ia) \<noteq> None
          \<and> (\<forall>ia'. LogInfo ''ReloadConfig: Added AS'' (iaCtx ia') \<in> set evs \<longleftrightarrow> ia' = ia))
       \<or> (\<exists>p. am st' = (am st)(IAInt env ia \<mapsto> p) \<and> am st (IAInt env ia) = None
          \<and> (\<forall>ia'. LogInfo ''ReloadConfig: Added AS'' (iaCtx ia') \<in> set evs \<longleftrightarrow> ia' = ia)))"
proof -
  let ?s0 = "log_Info ''ReloadConfig: Adding AS...'' (iaCtx ia) st"
  have w0: "world ?s0 = world st" and a0: "am ?s0 = am st"
    by (simp_all add: log_Info_def)
  show ?thesis
  proof (cases "I ia = 0 \<or> A ia = 0")
    case True
    then show ?thesis
      by (auto simp: st'_def addNewIAs_round_def AddIA_wildcard log_Info_def log_Error_def
          emit_def)
  next
    case False
    then have c: "I ia \<noteq> 0" "A ia \<noteq> 0"
      by simp_all
    show ?thesis
    proof (cases "am st (IAInt env ia)")
      case (Some ae)
      then have "AddIA env ia ?s0 = ((ae, None), ?s0)"
        using c a0 by (simp add: AddIA_found)
      then show ?thesis
        using Some
        by (auto simp: st'_def addNewIAs_round_def call_ReloadConfig_def log_Info_def
            log_Error_def emit_def split: prod.splits)
    next
      case None
      obtain p err w where f: "newASEntry env ia (world st) = ((p, err), w)"
        by (metis surj_pair)
      show ?thesis
      proof (cases err)
        case (Some e)
        then have "AddIA env ia ?s0
            = ((NilPtr, Some e), emit (CallNewASEntry ia) (?s0\<lparr>world := w\<rparr>))"
          using c a0 w0 None f by (simp add: AddIA_factory_error)
        then show ?thesis
          using None
          by (auto simp: st'_def addNewIAs_round_def log_Info_def log_Error_def emit_def)
      next
        case eNone: None
        then have "AddIA env ia ?s0
            = ((p, None), Store (IAInt env ia) p (emit (CallNewASEntry ia) (?s0\<lparr>world := w\<rparr>)))"
          using c a0 w0 None f by (simp add: AddIA_created)
        then show ?thesis
          using None
          by (auto simp: st'_def addNewIAs_round_def call_ReloadConfig_def log_Info_def
              log_Error_def emit_def Store_def split: prod.splits)
      qed
    qed
  qed
qed

lemma addition_fold_effect:
  "\<exists>evs. trace (fold (addNewIAs_round env) cs st) = trace st @ evs
     \<and> (\<forall>k. am st k \<noteq> None \<longrightarrow> am (fold (addNewIAs_round env) cs st) k = am st k)
     \<and> (\<forall>k. am (fold (addNewIAs_round env) cs st) k \<noteq> am st k \<longrightarrow>
           (\<exists>ia \<in> fst ` set cs. IAInt env ia = k
              \<and> LogInfo ''ReloadConfig: Added AS'' (iaCtx ia) \<in> set evs))
     \<and> (\<forall>ia. LogInfo ''ReloadConfig: Added AS'' (iaCtx ia) \<in> set evs \<longrightarrow>
           am (fold (addNewIAs_round env) cs st) (IAInt env ia) \<noteq> None)"
proof (induction cs arbitrary: st)
  case Nil
  show ?case by simp
next
  case (Cons p cs)
  obtain ia c where p: "p = (ia, c)"
    by (cases p)
  let ?s1 = "addNewIAs_round env (ia, c) st"
  let ?s2 = "fold (addNewIAs_round env) cs ?s1"
  obtain e1 where t1: "trace ?s1 = trace st @ e1"
    and r: "(am ?s1 = am st \<and> (I ia = 0 \<or> A ia = 0 \<or> am st (IAInt env ia) = None)
          \<and> (\<forall>ia'. LogInfo ''ReloadConfig: Added AS'' (iaCtx ia') \<notin> set e1))
       \<or> (am ?s1 = am st \<and> am st (IAInt env ia) \<noteq> None
          \<and> (\<forall>ia'. LogInfo ''ReloadConfig: Added AS'' (iaCtx ia') \<in> set e1 \<longleftrightarrow> ia' = ia))
       \<or> (\<exists>p. am ?s1 = (am st)(IAInt env ia \<mapsto> p) \<and> am st (IAInt env ia) = None
          \<and> (\<forall>ia'. LogInfo ''ReloadConfig: Added AS'' (iaCtx ia') \<in> set e1 \<longleftrightarrow> ia' = ia))"
    using addNewIAs_round_effect [of env ia c st] by blast
  obtain e2 where t2: "trace ?s2 = trace ?s1 @ e2"
    and m2: "\<forall>k. am ?s1 k \<noteq> None \<longrightarrow> am ?s2 k = am ?s1 k"
    and c2: "\<forall>k. am ?s2 k \<noteq> am ?s1 k \<longrightarrow>
           (\<exists>ia \<in> fst ` set cs. IAInt env ia = k
              \<and> LogInfo ''ReloadConfig: Added AS'' (iaCtx ia) \<in> set e2)"
    and a2: "\<forall>ia. LogInfo ''ReloadConfig: Added AS'' (iaCtx ia) \<in> set e2 \<longrightarrow>
           am ?s2 (IAInt env ia) \<noteq> None"
    using Cons.IH [of ?s1] by blast
  have mono1: "\<forall>k. am st k \<noteq> None \<longrightarrow> am ?s1 k = am st k"
    using r by auto
  have ch1: "\<forall>k. am ?s1 k \<noteq> am st k \<longrightarrow>
      k = IAInt env ia \<and> LogInfo ''ReloadConfig: Added AS'' (iaCtx ia) \<in> set e1"
    using r by (auto split: if_splits)
  have ad1: "\<forall>ia'. LogInfo ''ReloadConfig: Added AS'' (iaCtx ia') \<in> set e1 \<longrightarrow>
      am ?s1 (IAInt env ia') \<noteq> None"
    using r by auto
  have g1: "trace ?s2 = trace st @ (e1 @ e2)"
    using t1 t2 by simp
  have g2: "\<forall>k. am st k \<noteq> None \<longrightarrow> am ?s2 k = am st k"
    using mono1 m2 by metis
  have g3: "\<forall>k. am ?s2 k \<noteq> am st k \<longrightarrow>
           (\<exists>ia' \<in> fst ` set ((ia, c) # cs). IAInt env ia' = k
              \<and> LogInfo ''ReloadConfig: Added AS'' (iaCtx ia') \<in> set (e1 @ e2))"
  proof (intro allI impI)
    fix k
    assume d: "am ?s2 k \<noteq> am st k"
    show "\<exists>ia' \<in> fst ` set ((ia, c) # cs). IAInt env ia' = k
              \<and> LogInfo ''ReloadConfig: Added AS'' (iaCtx ia') \<in> set (e1 @ e2)"
    proof (cases "am ?s2 k = am ?s1 k")
      case True
      with d ch1 show ?thesis by auto
    next
      case False
      with c2 obtain ia' where "ia' \<in> fst ` set cs" "IAInt env ia' = k"
        "LogInfo ''ReloadConfig: Added AS'' (iaCtx ia') \<in> set e2"
        by blast
      then show ?thesis by auto
    qed
  qed
  have g4: "\<forall>ia'. LogInfo ''ReloadConfig: Added AS'' (iaCtx ia') \<in> set (e1 @ e2) \<longrightarrow>
           am ?s2 (IAInt env ia') \<noteq> None"
    using ad1 a2 m2 by (metis Un_iff set_append)
  from g1 g2 g3 g4 show ?case
    unfolding p by (intro exI [of _ "e1 @ e2"]) simp
qed

lemma addition_fold_found:
  assumes "ia \<in> fst ` set cs" and "I ia \<noteq> 0" and "A ia \<noteq> 0"
    and "am st (IAInt env ia) \<noteq> None"
  shows "LogInfo ''ReloadConfig: Added AS'' (iaCtx ia)
           \<in> set (new_events st (fold (addNewIAs_round env) cs st))"
  using assms
proof (induction cs arbitrary: st)
  case Nil
  then show ?case by simp
next
  case (Cons p cs)
  obtain ia0 c where p: "p = (ia0, c)"
    by (cases p)
  let ?s1 = "addNewIAs_round env (ia0, c) st"
  let ?s2 = "fold (addNewIAs_round env) cs ?s1"
  obtain e1 where t1: "trace ?s1 = trace st @ e1"
    and r: "(am ?s1 = am st \<and> (I ia0 = 0 \<or> A ia0 = 0 \<or> am st (IAInt env ia0) = None)
          \<and> (\<forall>ia'. LogInfo ''ReloadConfig: Added AS'' (iaCtx ia') \<notin> set e1))
       \<or> (am ?s1 = am st \<and> am st (IAInt env ia0) \<noteq> None
          \<and> (\<forall>ia'. LogInfo ''ReloadConfig: Added AS'' (iaCtx ia') \<in> set e1 \<longleftrightarrow> ia' = ia0))
       \<or> (\<exists>p. am ?s1 = (am st)(IAInt env ia0 \<mapsto> p) \<and> am st (IAInt env ia0) = None
          \<and> (\<forall>ia'. LogInfo ''ReloadConfig: Added AS'' (iaCtx ia') \<in> set e1 \<longleftrightarrow> ia' = ia0))"
    using addNewIAs_round_effect [of env ia0 c st] by blast
  obtain e2 where t2: "trace ?s2 = trace ?s1 @ e2"
    using addition_fold_effect [of env cs ?s1] by blast
  have ev: "new_events st ?s2 = e1 @ e2"
    using t1 t2 by (rule new_events_append)
  have live: "am ?s1 (IAInt env ia) \<noteq> None"
    using r Cons.prems(4) by auto
  show ?case
  proof (cases "ia = ia0")
    case True
    with r Cons.prems have "LogInfo ''ReloadConfig: Added AS'' (iaCtx ia) \<in> set e1"
      by auto
    with ev show ?thesis
      unfolding p by simp
  next
    case False
    with Cons.prems(1) have "ia \<in> fst ` set cs"
      unfolding p by auto
    from Cons.IH [OF this Cons.prems(2,3) live]
    have "LogInfo ''ReloadConfig: Added AS'' (iaCtx ia) \<in> set e2"
      using t2 by (simp add: new_events_eq)
    with ev show ?thesis
      unfolding p by simp
  qed
qed

text \<open>One visit of the deletion sweep.\<close>

lemma delOldIAs_round_eq:
  "delOldIAs_round env cfg k st =
     (case am st k of
        None \<Rightarrow> st
      | Some v \<Rightarrow>
          (case map_of (ASes cfg) (IA env k) of
             Some c \<Rightarrow> st
           | None \<Rightarrow>
               (case DelIA env (IA env k)
                       (log_Info ''ReloadConfig: Deleting AS...'' (iaCtx (IA env k)) st) of
                  (Some cerr, st1) \<Rightarrow> log_Error (Desc cerr) (Ctx cerr) st1
                | (None, st1) \<Rightarrow> log_Info ''ReloadConfig: Deleted AS'' (iaCtx (IA env k)) st1)))"
  by (simp add: delOldIAs_round_def delOldIAs_visit_def Let_def
      split: option.splits prod.splits)

lemma delOldIAs_visit_round:
  "am st k = Some v \<Longrightarrow>
     \<exists>acc'. delOldIAs_visit env cfg k v acc st = (True, acc', delOldIAs_round env cfg k st)"
  by (auto simp: delOldIAs_round_eq delOldIAs_visit_def Let_def split: option.splits prod.splits)

lemma Range_loop_fold:
  "snd (Range_loop (delOldIAs_visit env cfg) ks acc st) = fold (delOldIAs_round env cfg) ks st"
proof (induction ks arbitrary: acc st)
  case Nil
  show ?case by simp
next
  case (Cons k ks)
  show ?case
  proof (cases "am st k")
    case None
    then show ?thesis
      by (simp add: Cons.IH delOldIAs_round_eq)
  next
    case (Some v)
    from delOldIAs_visit_round [OF Some] obtain acc' where
      "delOldIAs_visit env cfg k v acc st = (True, acc', delOldIAs_round env cfg k st)"
      by blast
    with Some show ?thesis
      by (simp add: Cons.IH)
  qed
qed

lemma delOldIAs_fold:
  "snd (delOldIAs env cfg st) = fold (delOldIAs_round env cfg) (rangeKeys env (am st)) st"
  by (simp add: delOldIAs_def Range_def Range_loop_fold)

lemma DelIA_effect:
  "\<exists>evs. trace (snd (DelIA env ia s)) = trace s @ evs
     \<and> (\<forall>msg ctx. LogInfo msg ctx \<notin> set evs)
     \<and> am (snd (DelIA env ia s)) = (am s)(IAInt env ia := None)"
proof (cases "am s (IAInt env ia)")
  case None
  then have "(am s)(IAInt env ia := None) = am s"
    by (auto simp: fun_eq_iff)
  with None show ?thesis
    by (simp add: DelIA_missing)
next
  case (Some ae)
  then show ?thesis
    by (simp add: DelIA_found call_Cleanup_def Delete_def emit_def split: prod.splits)
qed

lemma delOldIAs_round_effect:
  "\<exists>evs. trace (delOldIAs_round env cfg k st) = trace st @ evs
     \<and> (\<forall>ia. LogInfo ''ReloadConfig: Added AS'' (iaCtx ia) \<notin> set evs)
     \<and> am (delOldIAs_round env cfg k st) =
         (if am st k \<noteq> None \<and> map_of (ASes cfg) (IA env k) = None
          then (am st)(IAInt env (IA env k) := None) else am st)"
proof (cases "am st k \<noteq> None \<and> map_of (ASes cfg) (IA env k) = None")
  case False
  then show ?thesis
    by (auto simp: delOldIAs_round_eq split: option.splits)
next
  case True
  let ?s0 = "log_Info ''ReloadConfig: Deleting AS...'' (iaCtx (IA env k)) st"
  obtain evs where t: "trace (snd (DelIA env (IA env k) ?s0)) = trace ?s0 @ evs"
    and nl: "\<forall>msg ctx. LogInfo msg ctx \<notin> set evs"
    and m: "am (snd (DelIA env (IA env k) ?s0)) = (am ?s0)(IAInt env (IA env k) := None)"
    using DelIA_effect [of env "IA env k" ?s0] by blast
  obtain err st1 where d: "DelIA env (IA env k) ?s0 = (err, st1)"
    by (cases "DelIA env (IA env k) ?s0")
  from True t nl m d show ?thesis
    by (cases err) (auto simp: delOldIAs_round_eq log_Info_def log_Error_def emit_def)
qed

lemma deletion_fold_trace:
  "\<exists>evs. trace (fold (delOldIAs_round env cfg) ks st) = trace st @ evs
     \<and> (\<forall>ia. LogInfo ''ReloadConfig: Added AS'' (iaCtx ia) \<notin> set evs)"
proof (induction ks arbitrary: st)
  case Nil
  show ?case by simp
next
  case (Cons k ks)
  let ?s1 = "delOldIAs_round env cfg k st"
  obtain e1 where t1: "trace ?s1 = trace st @ e1"
    and n1: "\<forall>ia. LogInfo ''ReloadConfig: Added AS'' (iaCtx ia) \<notin> set e1"
    using delOldIAs_round_effect [of env cfg k st] by blast
  obtain e2 where t2: "trace (fold (delOldIAs_round env cfg) ks ?s1) = trace ?s1 @ e2"
    and n2: "\<forall>ia. LogInfo ''ReloadConfig: Added AS'' (iaCtx ia) \<notin> set e2"
    using Cons.IH [of ?s1] by blast
  from t1 t2 n1 n2 show ?case
    by (intro exI [of _ "e1 @ e2"]) simp
qed

lemma deletion_fold_map:
  assumes "\<forall>k \<in> set ks. am st k \<noteq> None \<longrightarrow> IAInt env (IA env k) = k"
  shows "am (fold (delOldIAs_round env cfg) ks st) =
     (\<lambda>k. if k \<in> set ks \<and> map_of (ASes cfg) (IA env k) = None then None else am st k)"
  using assms
proof (induction ks arbitrary: st)
  case Nil
  show ?case by simp
next
  case (Cons k ks)
  let ?s1 = "delOldIAs_round env cfg k st"
  have m1: "am ?s1 = (if am st k \<noteq> None \<and> map_of (ASes cfg) (IA env k) = None
      then (am st)(k := None) else am st)"
  proof -
    from delOldIAs_round_effect [of env cfg k st]
    have "am ?s1 = (if am st k \<noteq> None \<and> map_of (ASes cfg) (IA env k) = None
          then (am st)(IAInt env (IA env k) := None) else am st)"
      by blast
    moreover have "am st k \<noteq> None \<Longrightarrow> IAInt env (IA env k) = k"
      using Cons.prems by simp
    ultimately show ?thesis
      by auto
  qed
  have "\<forall>k' \<in> set ks. am ?s1 k' \<noteq> None \<longrightarrow> IAInt env (IA env k') = k'"
    using Cons.prems m1 by (auto split: if_splits)
  from Cons.IH [OF this] m1 show ?case
    by (auto simp: fun_eq_iff)
qed

lemma ReloadConfig_state:
  "snd (ReloadConfig env cfg st) = snd (delOldIAs env cfg (snd (addNewIAs env cfg st)))"
  by (simp add: ReloadConfig_def split: prod.splits)

section \<open>The order of the two phases\<close>

lemma addNewIAs_trace:
  "trace (snd (addNewIAs env cfg st)) = trace st @ new_events st (snd (addNewIAs env cfg st))"
proof -
  obtain evs where "trace (snd (addNewIAs env cfg st)) = trace st @ evs"
    using addition_fold_effect [of env "ASes cfg" st] by (auto simp: addNewIAs_fold)
  then show ?thesis
    by (simp add: new_events_def)
qed

lemma delOldIAs_trace:
  "trace (snd (delOldIAs env cfg st)) = trace st @ new_events st (snd (delOldIAs env cfg st))"
proof -
  obtain evs where "trace (snd (delOldIAs env cfg st)) = trace st @ evs"
    using deletion_fold_trace [of env cfg "rangeKeys env (am st)" st]
    by (auto simp: delOldIAs_fold)
  then show ?thesis
    by (simp add: new_events_def)
qed

text \<open>
  C1. \<open>ReloadConfig\<close> runs the addition phase, then the deletion phase on the state the
  addition phase left, and returns the conjunction of the deletion result and the
  addition result; the final state is the one the deletion phase produced. The
  result of the addition phase enters the returned flag only: the deletion phase
  also runs when the addition phase returned false. In the trace the events of the
  addition phase come first and those of the deletion phase follow them.
\<close>

theorem ReloadConfig_both_phases:
  "ReloadConfig env cfg st =
     (fst (delOldIAs env cfg (snd (addNewIAs env cfg st))) \<and> fst (addNewIAs env cfg st),
      snd (delOldIAs env cfg (snd (addNewIAs env cfg st))))
   \<and> trace (snd (ReloadConfig env cfg st)) =
       trace st @ new_events st (snd (addNewIAs env cfg st))
         @ new_events (snd (addNewIAs env cfg st))
             (snd (delOldIAs env cfg (snd (addNewIAs env cfg st))))"
proof -
  have "trace (snd (ReloadConfig env cfg st)) =
      trace (snd (addNewIAs env cfg st))
        @ new_events (snd (addNewIAs env cfg st))
            (snd (delOldIAs env cfg (snd (addNewIAs env cfg st))))"
    unfolding ReloadConfig_state by (rule delOldIAs_trace)
  also have "trace (snd (addNewIAs env cfg st)) =
      trace st @ new_events st (snd (addNewIAs env cfg st))"
    by (rule addNewIAs_trace)
  finally show ?thesis
    by (simp add: ReloadConfig_def split: prod.splits)
qed

section \<open>Two sample passes\<close>

lemma sample_env_sel [simp]:
  "IAInt sample_env ia = (I ia, A ia)"
  "IA sample_env k = \<lparr>I = fst k, A = snd k\<rparr>"
  "newASEntry sample_env ia w =
     (if I ia = 7
      then ((NilPtr, Some (NewCError ''newASEntry: no tunnel device'' (iaCtx ia))), w)
      else ((Ptr w, None), Suc w))"
  "ASEntry_ReloadConfig sample_env ae c w = (True, w)"
  "ASEntry_Cleanup sample_env ae w =
     (if ae = Ptr 9 then (Some (NewCError ''Cleanup: link not removed'' []), w) else (None, w))"
  "rangeKeys sample_env m = filter (\<lambda>k. m k \<noteq> None) [(1, 1), (1, 2), (1, 3), (7, 1), (0, 0)]"
  by (simp_all add: sample_env_def)

lemma sample_add:
  "addNewIAs sample_env sample_cfg sample_state =
     (False,
      \<lparr>am = [(1, 1) \<mapsto> Ptr 9, (1, 2) \<mapsto> Ptr 5, (1, 3) \<mapsto> Ptr 10], world = 11,
       trace =
         [LogInfo ''ReloadConfig: Adding AS...'' (iaCtx \<lparr>I = 1, A = 2\<rparr>),
          CallReloadConfig (Ptr 5) 0,
          LogInfo ''ReloadConfig: Added AS'' (iaCtx \<lparr>I = 1, A = 2\<rparr>),
          LogInfo ''ReloadConfig: Adding AS...'' (iaCtx \<lparr>I = 1, A = 3\<rparr>),
          CallNewASEntry \<lparr>I = 1, A = 3\<rparr>,
          MapStore (1, 3) (Ptr 10),
          CallReloadConfig (Ptr 10) 0,
          LogInfo ''ReloadConfig: Added AS'' (iaCtx \<lparr>I = 1, A = 3\<rparr>),
          LogInfo ''ReloadConfig: Adding AS...'' (iaCtx \<lparr>I = 7, A = 1\<rparr>),
          CallNewASEntry \<lparr>I = 7, A = 1\<rparr>,
          LogError ''newASEntry: no tunnel device'' (iaCtx \<lparr>I = 7, A = 1\<rparr>)]\<rparr>)"
  by (simp add: sample_cfg_def sample_state_def addNewIAs_def AddIA_def Load_def Store_def
      emit_def log_Info_def log_Error_def call_newASEntry_def call_ReloadConfig_def Let_def
      NewCError_def)

lemma sample_del:
  assumes "map_of (ASes cfg) \<lparr>I = 1, A = 1\<rparr> = None"
    and "map_of (ASes cfg) \<lparr>I = 1, A = 2\<rparr> = Some c2"
    and "map_of (ASes cfg) \<lparr>I = 1, A = 3\<rparr> = Some c3"
  shows "delOldIAs sample_env cfg
     \<lparr>am = [(1, 1) \<mapsto> Ptr 9, (1, 2) \<mapsto> Ptr 5, (1, 3) \<mapsto> Ptr 10], world = 11, trace = tr\<rparr> =
     (False,
      \<lparr>am = [(1, 2) \<mapsto> Ptr 5, (1, 3) \<mapsto> Ptr 10], world = 11,
       trace = tr @
         [LogInfo ''ReloadConfig: Deleting AS...'' (iaCtx \<lparr>I = 1, A = 1\<rparr>),
          MapDelete (1, 1),
          CallCleanup (Ptr 9),
          LogError ''Cleanup: link not removed'' []]\<rparr>)"
  using assms
  by (simp add: delOldIAs_def Range_def delOldIAs_visit_def
      DelIA_def Load_def Delete_def emit_def log_Info_def log_Error_def
      call_Cleanup_def Let_def NewCError_def fun_upd_twist)

lemma sample_pass:
  "ReloadConfig sample_env sample_cfg sample_state =
     (False,
      \<lparr>am = [(1, 2) \<mapsto> Ptr 5, (1, 3) \<mapsto> Ptr 10], world = 11,
       trace =
         [LogInfo ''ReloadConfig: Adding AS...'' (iaCtx \<lparr>I = 1, A = 2\<rparr>),
          CallReloadConfig (Ptr 5) 0,
          LogInfo ''ReloadConfig: Added AS'' (iaCtx \<lparr>I = 1, A = 2\<rparr>),
          LogInfo ''ReloadConfig: Adding AS...'' (iaCtx \<lparr>I = 1, A = 3\<rparr>),
          CallNewASEntry \<lparr>I = 1, A = 3\<rparr>,
          MapStore (1, 3) (Ptr 10),
          CallReloadConfig (Ptr 10) 0,
          LogInfo ''ReloadConfig: Added AS'' (iaCtx \<lparr>I = 1, A = 3\<rparr>),
          LogInfo ''ReloadConfig: Adding AS...'' (iaCtx \<lparr>I = 7, A = 1\<rparr>),
          CallNewASEntry \<lparr>I = 7, A = 1\<rparr>,
          LogError ''newASEntry: no tunnel device'' (iaCtx \<lparr>I = 7, A = 1\<rparr>)] @
         [LogInfo ''ReloadConfig: Deleting AS...'' (iaCtx \<lparr>I = 1, A = 1\<rparr>),
          MapDelete (1, 1),
          CallCleanup (Ptr 9),
          LogError ''Cleanup: link not removed'' []]\<rparr>)"
proof -
  have "delOldIAs sample_env sample_cfg
     \<lparr>am = [(1, 1) \<mapsto> Ptr 9, (1, 2) \<mapsto> Ptr 5, (1, 3) \<mapsto> Ptr 10], world = 11, trace = tr\<rparr> =
     (False,
      \<lparr>am = [(1, 2) \<mapsto> Ptr 5, (1, 3) \<mapsto> Ptr 10], world = 11,
       trace = tr @
         [LogInfo ''ReloadConfig: Deleting AS...'' (iaCtx \<lparr>I = 1, A = 1\<rparr>),
          MapDelete (1, 1),
          CallCleanup (Ptr 9),
          LogError ''Cleanup: link not removed'' []]\<rparr>)" for tr
    by (rule sample_del [where ?c2.0 = 0 and ?c3.0 = 0]) (simp_all add: sample_cfg_def)
  then show ?thesis
    unfolding ReloadConfig_def sample_add prod.case by simp
qed

lemma sample_add2:
  "addNewIAs sample_env sample_cfg2 sample_state =
     (True,
      \<lparr>am = [(1, 1) \<mapsto> Ptr 9, (1, 2) \<mapsto> Ptr 5, (1, 3) \<mapsto> Ptr 10], world = 11,
       trace =
         [LogInfo ''ReloadConfig: Adding AS...'' (iaCtx \<lparr>I = 1, A = 2\<rparr>),
          CallReloadConfig (Ptr 5) 0,
          LogInfo ''ReloadConfig: Added AS'' (iaCtx \<lparr>I = 1, A = 2\<rparr>),
          LogInfo ''ReloadConfig: Adding AS...'' (iaCtx \<lparr>I = 1, A = 3\<rparr>),
          CallNewASEntry \<lparr>I = 1, A = 3\<rparr>,
          MapStore (1, 3) (Ptr 10),
          CallReloadConfig (Ptr 10) 0,
          LogInfo ''ReloadConfig: Added AS'' (iaCtx \<lparr>I = 1, A = 3\<rparr>)]\<rparr>)"
  by (simp add: sample_cfg2_def sample_state_def addNewIAs_def AddIA_def Load_def Store_def
      emit_def log_Info_def log_Error_def call_newASEntry_def call_ReloadConfig_def Let_def
      NewCError_def)

lemma sample_pass2:
  "ReloadConfig sample_env sample_cfg2 sample_state =
     (False,
      \<lparr>am = [(1, 2) \<mapsto> Ptr 5, (1, 3) \<mapsto> Ptr 10], world = 11,
       trace =
         [LogInfo ''ReloadConfig: Adding AS...'' (iaCtx \<lparr>I = 1, A = 2\<rparr>),
          CallReloadConfig (Ptr 5) 0,
          LogInfo ''ReloadConfig: Added AS'' (iaCtx \<lparr>I = 1, A = 2\<rparr>),
          LogInfo ''ReloadConfig: Adding AS...'' (iaCtx \<lparr>I = 1, A = 3\<rparr>),
          CallNewASEntry \<lparr>I = 1, A = 3\<rparr>,
          MapStore (1, 3) (Ptr 10),
          CallReloadConfig (Ptr 10) 0,
          LogInfo ''ReloadConfig: Added AS'' (iaCtx \<lparr>I = 1, A = 3\<rparr>)] @
         [LogInfo ''ReloadConfig: Deleting AS...'' (iaCtx \<lparr>I = 1, A = 1\<rparr>),
          MapDelete (1, 1),
          CallCleanup (Ptr 9),
          LogError ''Cleanup: link not removed'' []]\<rparr>)"
proof -
  have "delOldIAs sample_env sample_cfg2
     \<lparr>am = [(1, 1) \<mapsto> Ptr 9, (1, 2) \<mapsto> Ptr 5, (1, 3) \<mapsto> Ptr 10], world = 11, trace = tr\<rparr> =
     (False,
      \<lparr>am = [(1, 2) \<mapsto> Ptr 5, (1, 3) \<mapsto> Ptr 10], world = 11,
       trace = tr @
         [LogInfo ''ReloadConfig: Deleting AS...'' (iaCtx \<lparr>I = 1, A = 1\<rparr>),
          MapDelete (1, 1),
          CallCleanup (Ptr 9),
          LogError ''Cleanup: link not removed'' []]\<rparr>)" for tr
    by (rule sample_del [where ?c2.0 = 0 and ?c3.0 = 0]) (simp_all add: sample_cfg2_def)
  then show ?thesis
    unfolding ReloadConfig_def sample_add2 prod.case by simp
qed

text \<open>
  The scenarios of the spec on the sample collaborator: an empty registry and a
  configuration of two domains; a configuration whose only domain cannot be created;
  and a pass whose addition phase fails while a stale key is still removed
  (\<open>sample_pass\<close> above, where 7-1 cannot be created and 1-1 is deleted).
\<close>

lemma scenario_all_new:
  "fst (ReloadConfig sample_env \<lparr>ASes = [(\<lparr>I = 1, A = 1\<rparr>, 0), (\<lparr>I = 1, A = 2\<rparr>, 0)]\<rparr> empty_state)
     = True
   \<and> am (snd (ReloadConfig sample_env
          \<lparr>ASes = [(\<lparr>I = 1, A = 1\<rparr>, 0), (\<lparr>I = 1, A = 2\<rparr>, 0)]\<rparr> empty_state))
       = [(1, 1) \<mapsto> Ptr 0, (1, 2) \<mapsto> Ptr 1]"
  by (simp add: ReloadConfig_def addNewIAs_def delOldIAs_def Range_def delOldIAs_visit_def
      empty_state_def AddIA_def Load_def Store_def emit_def log_Info_def log_Error_def
      call_newASEntry_def call_ReloadConfig_def Let_def)

lemma scenario_factory_fails:
  "fst (ReloadConfig sample_env \<lparr>ASes = [(\<lparr>I = 7, A = 1\<rparr>, 0)]\<rparr> empty_state) = False
   \<and> am (snd (ReloadConfig sample_env \<lparr>ASes = [(\<lparr>I = 7, A = 1\<rparr>, 0)]\<rparr> empty_state))
       = Map.empty"
  by (simp add: ReloadConfig_def addNewIAs_def delOldIAs_def Range_def
      empty_state_def AddIA_def Load_def emit_def log_Info_def log_Error_def
      call_newASEntry_def Let_def NewCError_def)

section \<open>Convergence of ReloadConfig\<close>

text \<open>
  C2, in the form that holds of map.go. An Add for an identifier has succeeded in a pass when map.go has
  logged "Added AS" for it during the pass. Let the keys round-trip through the
  conversions of package addr (every key of the registry is the key of its own
  identifier, and every identifier of \<open>cfg\<close> is the identifier of its own key), and
  let \<open>Range\<close> enumerate every key that the map holds after the addition phase. Then:
  if every Add of the pass succeeded, the key set of the registry after the pass is
  the key set of \<open>cfg\<close>; an identifier of \<open>cfg\<close> whose Add failed has the entry it had
  before, and none before or after when it is concrete; a key that was present and
  is in \<open>cfg\<close> keeps its entry; and a key that was present and is absent from \<open>cfg\<close>
  is absent afterwards, whatever its Remove returned.
\<close>

theorem ReloadConfig_converges:
  assumes keys: "\<forall>k \<in> dom (am st). IAInt env (IA env k) = k"
    and ids: "\<forall>ia \<in> fst ` set (ASes cfg). IA env (IAInt env ia) = ia"
    and rng: "dom (am (snd (addNewIAs env cfg st)))
                \<subseteq> set (rangeKeys env (am (snd (addNewIAs env cfg st))))"
  shows "((\<forall>ia \<in> fst ` set (ASes cfg).
             LogInfo ''ReloadConfig: Added AS'' (iaCtx ia)
               \<in> set (new_events st (snd (ReloadConfig env cfg st)))) \<longrightarrow>
          dom (am (snd (ReloadConfig env cfg st))) = IAInt env ` fst ` set (ASes cfg))
       \<and> (\<forall>ia \<in> fst ` set (ASes cfg).
             LogInfo ''ReloadConfig: Added AS'' (iaCtx ia)
               \<notin> set (new_events st (snd (ReloadConfig env cfg st))) \<longrightarrow>
             am (snd (ReloadConfig env cfg st)) (IAInt env ia) = am st (IAInt env ia)
             \<and> (I ia \<noteq> 0 \<and> A ia \<noteq> 0 \<longrightarrow> am st (IAInt env ia) = None))
       \<and> (\<forall>k \<in> dom (am st). IA env k \<in> fst ` set (ASes cfg) \<longrightarrow>
             am (snd (ReloadConfig env cfg st)) k = am st k)
       \<and> (\<forall>k \<in> dom (am st). IA env k \<notin> fst ` set (ASes cfg) \<longrightarrow>
             am (snd (ReloadConfig env cfg st)) k = None)"
proof -
  let ?ids = "fst ` set (ASes cfg)"
  let ?s1 = "snd (addNewIAs env cfg st)"
  let ?s2 = "snd (ReloadConfig env cfg st)"
  let ?ks = "rangeKeys env (am ?s1)"
  have idrt: "\<And>ia. ia \<in> ?ids \<Longrightarrow> IA env (IAInt env ia) = ia"
    using ids by blast
  have s1: "?s1 = fold (addNewIAs_round env) (ASes cfg) st"
    by (rule addNewIAs_fold)
  have s2: "?s2 = fold (delOldIAs_round env cfg) ?ks ?s1"
    by (simp add: ReloadConfig_state delOldIAs_fold)
  obtain ea where ta: "trace ?s1 = trace st @ ea"
    and mono: "\<forall>k. am st k \<noteq> None \<longrightarrow> am ?s1 k = am st k"
    and ch: "\<forall>k. am ?s1 k \<noteq> am st k \<longrightarrow>
           (\<exists>ia \<in> ?ids. IAInt env ia = k
              \<and> LogInfo ''ReloadConfig: Added AS'' (iaCtx ia) \<in> set ea)"
    and ad: "\<forall>ia. LogInfo ''ReloadConfig: Added AS'' (iaCtx ia) \<in> set ea \<longrightarrow>
           am ?s1 (IAInt env ia) \<noteq> None"
    using addition_fold_effect [of env "ASes cfg" st] unfolding s1 [symmetric] by blast
  obtain ed where td: "trace ?s2 = trace ?s1 @ ed"
    and nd: "\<forall>ia. LogInfo ''ReloadConfig: Added AS'' (iaCtx ia) \<notin> set ed"
    using deletion_fold_trace [of env cfg ?ks ?s1] unfolding s2 [symmetric] by blast
  have ev: "new_events st ?s2 = ea @ ed"
    using ta td by (rule new_events_append)
  have added: "\<And>ia. LogInfo ''ReloadConfig: Added AS'' (iaCtx ia) \<in> set (new_events st ?s2)
      \<longleftrightarrow> LogInfo ''ReloadConfig: Added AS'' (iaCtx ia) \<in> set ea"
    using ev nd by auto
  have rt: "\<And>k. am ?s1 k \<noteq> None \<Longrightarrow> IAInt env (IA env k) = k"
  proof -
    fix k
    assume live: "am ?s1 k \<noteq> None"
    show "IAInt env (IA env k) = k"
    proof (cases "am st k")
      case (Some v)
      with keys show ?thesis by (auto simp: dom_def)
    next
      case None
      with live ch obtain ia where "ia \<in> ?ids" "IAInt env ia = k"
        by metis
      with idrt [of ia] show ?thesis by auto
    qed
  qed
  have "am ?s2 =
      (\<lambda>k. if k \<in> set ?ks \<and> map_of (ASes cfg) (IA env k) = None then None else am ?s1 k)"
    unfolding s2 by (rule deletion_fold_map) (simp add: rt)
  moreover have "\<And>k. k \<notin> set ?ks \<Longrightarrow> am ?s1 k = None"
    using rng by (auto simp: dom_def)
  ultimately have m2: "\<And>k. am ?s2 k = (if IA env k \<in> ?ids then am ?s1 k else None)"
    by (auto simp: map_of_eq_None_iff)
  have a: "(\<forall>ia \<in> ?ids. LogInfo ''ReloadConfig: Added AS'' (iaCtx ia)
               \<in> set (new_events st ?s2)) \<longrightarrow> dom (am ?s2) = IAInt env ` ?ids"
  proof
    assume all: "\<forall>ia \<in> ?ids. LogInfo ''ReloadConfig: Added AS'' (iaCtx ia)
               \<in> set (new_events st ?s2)"
    show "dom (am ?s2) = IAInt env ` ?ids"
    proof (intro set_eqI iffI)
      fix k
      assume "k \<in> dom (am ?s2)"
      then have "am ?s2 k \<noteq> None"
        by (simp add: dom_def)
      then have "IA env k \<in> ?ids" and "am ?s1 k \<noteq> None"
        unfolding m2 [of k] by (simp_all split: if_splits)
      with rt [of k] show "k \<in> IAInt env ` ?ids"
        by (metis imageI)
    next
      fix k
      assume "k \<in> IAInt env ` ?ids"
      then obtain ia where ia: "ia \<in> ?ids" and k: "k = IAInt env ia"
        by blast
      from ia all added ad have "am ?s1 k \<noteq> None"
        unfolding k by blast
      moreover from ia idrt [OF ia] have "IA env k \<in> ?ids"
        unfolding k by simp
      ultimately have "am ?s2 k \<noteq> None"
        unfolding m2 [of k] by simp
      then show "k \<in> dom (am ?s2)"
        by (simp add: dom_def)
    qed
  qed
  have b: "\<forall>ia \<in> ?ids.
      LogInfo ''ReloadConfig: Added AS'' (iaCtx ia) \<notin> set (new_events st ?s2) \<longrightarrow>
        am ?s2 (IAInt env ia) = am st (IAInt env ia)
        \<and> (I ia \<noteq> 0 \<and> A ia \<noteq> 0 \<longrightarrow> am st (IAInt env ia) = None)"
  proof (intro ballI impI)
    fix ia
    assume ia: "ia \<in> ?ids"
      and no: "LogInfo ''ReloadConfig: Added AS'' (iaCtx ia) \<notin> set (new_events st ?s2)"
    from no added have nea: "LogInfo ''ReloadConfig: Added AS'' (iaCtx ia) \<notin> set ea"
      by blast
    have same: "am ?s1 (IAInt env ia) = am st (IAInt env ia)"
    proof (rule ccontr)
      assume "am ?s1 (IAInt env ia) \<noteq> am st (IAInt env ia)"
      with ch obtain ia' where ia': "ia' \<in> ?ids" "IAInt env ia' = IAInt env ia"
        and l: "LogInfo ''ReloadConfig: Added AS'' (iaCtx ia') \<in> set ea"
        by blast
      from idrt [OF ia] idrt [OF ia'(1)] ia'(2) have "ia' = ia"
        by simp
      with l nea show False by simp
    qed
    have keep: "am ?s2 (IAInt env ia) = am ?s1 (IAInt env ia)"
      using m2 [of "IAInt env ia"] ia idrt [OF ia] by simp
    have absent: "I ia \<noteq> 0 \<and> A ia \<noteq> 0 \<longrightarrow> am st (IAInt env ia) = None"
    proof (intro impI, rule ccontr)
      assume c: "I ia \<noteq> 0 \<and> A ia \<noteq> 0" and "am st (IAInt env ia) \<noteq> None"
      with ia have "LogInfo ''ReloadConfig: Added AS'' (iaCtx ia)
          \<in> set (new_events st (fold (addNewIAs_round env) (ASes cfg) st))"
        by (intro addition_fold_found) simp_all
      with ta nea show False
        unfolding s1 [symmetric] by (simp add: new_events_eq)
    qed
    from same keep absent
    show "am ?s2 (IAInt env ia) = am st (IAInt env ia)
        \<and> (I ia \<noteq> 0 \<and> A ia \<noteq> 0 \<longrightarrow> am st (IAInt env ia) = None)"
      by simp
  qed
  have c: "\<forall>k \<in> dom (am st). IA env k \<in> ?ids \<longrightarrow> am ?s2 k = am st k"
    using m2 mono by (auto simp: dom_def)
  have d: "\<forall>k \<in> dom (am st). IA env k \<notin> ?ids \<longrightarrow> am ?s2 k = None"
    using m2 by simp
  from a b c d show ?thesis
    by blast
qed

theorem ReloadConfig_converges_witness:
  "dom (am sample_state) = {(1, 1), (1, 2)}
   \<and> IAInt sample_env (IA sample_env (1, 1)) = (1, 1)
   \<and> IAInt sample_env (IA sample_env (1, 2)) = (1, 2)
   \<and> fst ` set (ASes sample_cfg2) = {\<lparr>I = 1, A = 2\<rparr>, \<lparr>I = 1, A = 3\<rparr>}
   \<and> IA sample_env (IAInt sample_env \<lparr>I = 1, A = 2\<rparr>) = \<lparr>I = 1, A = 2\<rparr>
   \<and> IA sample_env (IAInt sample_env \<lparr>I = 1, A = 3\<rparr>) = \<lparr>I = 1, A = 3\<rparr>
   \<and> LogInfo ''ReloadConfig: Added AS'' (iaCtx \<lparr>I = 1, A = 2\<rparr>)
         \<in> set (new_events sample_state (snd (ReloadConfig sample_env sample_cfg2 sample_state)))
   \<and> LogInfo ''ReloadConfig: Added AS'' (iaCtx \<lparr>I = 1, A = 3\<rparr>)
         \<in> set (new_events sample_state (snd (ReloadConfig sample_env sample_cfg2 sample_state)))
   \<and> dom (am (snd (ReloadConfig sample_env sample_cfg2 sample_state)))
       = IAInt sample_env ` fst ` set (ASes sample_cfg2)
   \<and> LogInfo ''ReloadConfig: Added AS'' (iaCtx \<lparr>I = 7, A = 1\<rparr>)
         \<notin> set (new_events sample_state (snd (ReloadConfig sample_env sample_cfg sample_state)))
   \<and> am (snd (ReloadConfig sample_env sample_cfg sample_state)) (IAInt sample_env \<lparr>I = 7, A = 1\<rparr>)
       = am sample_state (IAInt sample_env \<lparr>I = 7, A = 1\<rparr>)
   \<and> am sample_state (IAInt sample_env \<lparr>I = 7, A = 1\<rparr>) = None
   \<and> am (snd (ReloadConfig sample_env sample_cfg sample_state)) (1, 2) = am sample_state (1, 2)
   \<and> am (snd (ReloadConfig sample_env sample_cfg sample_state)) (1, 1) = None"
proof -
  have d: "dom (am sample_state) = {(1, 1), (1, 2)}"
    by (auto simp: sample_state_def)
  have keys: "\<forall>k \<in> dom (am sample_state). IAInt sample_env (IA sample_env k) = k"
    by simp
  have i2: "fst ` set (ASes sample_cfg2) = {\<lparr>I = 1, A = 2\<rparr>, \<lparr>I = 1, A = 3\<rparr>}"
    by (simp add: sample_cfg2_def)
  have ids2: "\<forall>ia \<in> fst ` set (ASes sample_cfg2). IA sample_env (IAInt sample_env ia) = ia"
    by simp
  have rng2: "dom (am (snd (addNewIAs sample_env sample_cfg2 sample_state)))
      \<subseteq> set (rangeKeys sample_env (am (snd (addNewIAs sample_env sample_cfg2 sample_state))))"
    unfolding sample_add2 by simp
  have ev2: "LogInfo ''ReloadConfig: Added AS'' (iaCtx \<lparr>I = 1, A = 2\<rparr>)
         \<in> set (new_events sample_state (snd (ReloadConfig sample_env sample_cfg2 sample_state)))
     \<and> LogInfo ''ReloadConfig: Added AS'' (iaCtx \<lparr>I = 1, A = 3\<rparr>)
         \<in> set (new_events sample_state (snd (ReloadConfig sample_env sample_cfg2 sample_state)))"
    unfolding sample_pass2 by (simp add: new_events_def sample_state_def)
  have all2: "\<forall>ia \<in> fst ` set (ASes sample_cfg2).
      LogInfo ''ReloadConfig: Added AS'' (iaCtx ia)
        \<in> set (new_events sample_state (snd (ReloadConfig sample_env sample_cfg2 sample_state)))"
    unfolding i2 using ev2 by simp
  have r2: "dom (am (snd (ReloadConfig sample_env sample_cfg2 sample_state)))
       = IAInt sample_env ` fst ` set (ASes sample_cfg2)"
    using ReloadConfig_converges [OF keys ids2 rng2] all2 by blast
  have i1: "fst ` set (ASes sample_cfg)
      = {\<lparr>I = 1, A = 2\<rparr>, \<lparr>I = 1, A = 3\<rparr>, \<lparr>I = 7, A = 1\<rparr>}"
    by (simp add: sample_cfg_def)
  have ids1: "\<forall>ia \<in> fst ` set (ASes sample_cfg). IA sample_env (IAInt sample_env ia) = ia"
    by simp
  have rng1: "dom (am (snd (addNewIAs sample_env sample_cfg sample_state)))
      \<subseteq> set (rangeKeys sample_env (am (snd (addNewIAs sample_env sample_cfg sample_state))))"
    unfolding sample_add by simp
  have ev1: "LogInfo ''ReloadConfig: Added AS'' (iaCtx \<lparr>I = 7, A = 1\<rparr>)
         \<notin> set (new_events sample_state (snd (ReloadConfig sample_env sample_cfg sample_state)))"
    unfolding sample_pass by (simp add: new_events_def sample_state_def)
  have in1: "\<lparr>I = 7, A = 1\<rparr> \<in> fst ` set (ASes sample_cfg)"
    "IA sample_env (1, 2) \<in> fst ` set (ASes sample_cfg)"
    "IA sample_env (1, 1) \<notin> fst ` set (ASes sample_cfg)"
    unfolding i1 by simp_all
  have in2: "(1, 2) \<in> dom (am sample_state)" "(1, 1) \<in> dom (am sample_state)"
    unfolding d by simp_all
  note t1 = ReloadConfig_converges [OF keys ids1 rng1]
  have r1: "am (snd (ReloadConfig sample_env sample_cfg sample_state))
        (IAInt sample_env \<lparr>I = 7, A = 1\<rparr>) = am sample_state (IAInt sample_env \<lparr>I = 7, A = 1\<rparr>)
      \<and> am sample_state (IAInt sample_env \<lparr>I = 7, A = 1\<rparr>) = None"
    using t1 [THEN conjunct2, THEN conjunct1, THEN bspec, OF in1(1), THEN mp, OF ev1]
    by simp
  have r3: "am (snd (ReloadConfig sample_env sample_cfg sample_state)) (1, 2) = am sample_state (1, 2)"
    using t1 in1(2) in2(1) by blast
  have r4: "am (snd (ReloadConfig sample_env sample_cfg sample_state)) (1, 1) = None"
    using t1 in1(3) in2(2) by blast
  from d i2 ev2 r2 ev1 r1 r3 r4 show ?thesis
    by simp
qed

theorem ReloadConfig_converges_counterexample:
  "new_events sample_state (snd (ReloadConfig sample_env sample_cfg2 sample_state)) =
     [LogInfo ''ReloadConfig: Adding AS...'' (iaCtx \<lparr>I = 1, A = 2\<rparr>),
      CallReloadConfig (Ptr 5) 0,
      LogInfo ''ReloadConfig: Added AS'' (iaCtx \<lparr>I = 1, A = 2\<rparr>),
      LogInfo ''ReloadConfig: Adding AS...'' (iaCtx \<lparr>I = 1, A = 3\<rparr>),
      CallNewASEntry \<lparr>I = 1, A = 3\<rparr>,
      MapStore (1, 3) (Ptr 10),
      CallReloadConfig (Ptr 10) 0,
      LogInfo ''ReloadConfig: Added AS'' (iaCtx \<lparr>I = 1, A = 3\<rparr>),
      LogInfo ''ReloadConfig: Deleting AS...'' (iaCtx \<lparr>I = 1, A = 1\<rparr>),
      MapDelete (1, 1),
      CallCleanup (Ptr 9),
      LogError ''Cleanup: link not removed'' []]
   \<and> fst (ReloadConfig sample_env sample_cfg2 sample_state) = False
   \<and> am sample_state (IAInt sample_env \<lparr>I = 1, A = 1\<rparr>) = Some (Ptr 9)
   \<and> am (snd (ReloadConfig sample_env sample_cfg2 sample_state)) (IAInt sample_env \<lparr>I = 1, A = 1\<rparr>)
       = None"
  unfolding sample_pass2 by (simp add: new_events_def sample_state_def)

end
